theory Spec2Isabelle
  imports Main
begin

section \<open>A small object model for the values the plugin loader handles\<close>

text \<open>
  The loader of \<^verbatim>\<open>PluginLoader.ts\<close> works on JavaScript objects through property reads
  and writes, prototype links, property descriptors and calls of functions that plugins and
  traits supply. Objects live in a heap (a list, a reference is an index). Every property is a
  data property with its three flags; accessor properties are not modelled. A function that a
  plugin or a trait supplies is \<open>Fn l r\<close>: calling it records the call under the label
  \<open>l\<close> and returns \<open>r\<close>; \<open>FnThrow l\<close> records the call and throws. The closures the loader itself creates are values of their own:
  \<open>MockWrap cb t\<close> is \<^verbatim>\<open>(...params) => cb(t, ...params)\<close>, \<open>DetachFn r\<close> is
  \<^verbatim>\<open>() => this.#instances.delete(newInstance)\<close>, \<open>Handle\<close> is the proxied registry
  \<^verbatim>\<open>this.#snowboard\<close> and \<open>LoaderThis\<close> is the loader object.
\<close>

datatype jsval =
    Undefined | Null | JBool bool | JNum int | JStr string | JArr "jsval list"
  | Ref nat | Fn string jsval | FnThrow string | MockWrap jsval jsval | DetachFn nat
  | Handle | LoaderThis

record desc =
  dvalue :: jsval
  writable :: bool
  enumerable :: bool
  configurable :: bool

datatype fieldinit = Const jsval | Arg nat

text \<open>
  \<open>ctor\<close> is \<open>Some fs\<close> for a class: \<^verbatim>\<open>new\<close> on it creates an object whose own fields
  are \<open>fs\<close> (a field is a constant or one of the constructor's arguments, as
  \<^verbatim>\<open>this.snowboard = snowboard\<close> in \<^verbatim>\<open>PluginBase\<close>).
\<close>

record obj =
  props :: "(string \<times> desc) list"
  proto :: "nat option"
  extensible :: bool
  ctor :: "(string \<times> fieldinit) list option"

datatype error =
    MissingDependency string | UnknownMethod string | ForbiddenOperation string
  | TypeError string | Thrown string

datatype event =
    ENew jsval "jsval list" nat
  | ESet nat string jsval
  | EDefine nat string desc
  | EInvoke string jsval "jsval list"
  | ECall string jsval "jsval list"
  | EWarn string
  | EAdd nat
  | EDelete nat

record world =
  heap :: "obj list"
  lname :: string
  factory :: jsval
  instances :: "nat list"
  initialised :: bool
  mocks :: "(string \<times> jsval) list"
  originalFunctions :: "(string \<times> jsval) list"
  pluginNames :: "string list"
  traitTable :: "(string \<times> jsval) list"
  log :: "event list"

type_synonym 'a res = "(error + 'a) \<times> world"

definition emit :: "event \<Rightarrow> world \<Rightarrow> world" where
  "emit e w = w\<lparr>log := log w @ [e]\<rparr>"

subsection \<open>Property reads\<close>

definition dataProp :: "jsval \<Rightarrow> desc" where
  "dataProp v = \<lparr>dvalue = v, writable = True, enumerable = True, configurable = True\<rparr>"

definition methodProp :: "jsval \<Rightarrow> desc" where
  "methodProp v = \<lparr>dvalue = v, writable = True, enumerable = False, configurable = True\<rparr>"

definition getObj :: "obj list \<Rightarrow> nat \<Rightarrow> obj option" where
  "getObj h r = (if r < length h then Some (h ! r) else None)"

text \<open>\<^verbatim>\<open>Object.getOwnPropertyDescriptor(o, k)\<close>; \<open>None\<close> is \<^verbatim>\<open>undefined\<close>.\<close>

definition getOwnPropertyDescriptor :: "obj list \<Rightarrow> nat \<Rightarrow> string \<Rightarrow> desc option" where
  "getOwnPropertyDescriptor h r k =
     (case getObj h r of None \<Rightarrow> None | Some ob \<Rightarrow> map_of (props ob) k)"

text \<open>
  The lookup along the prototype links. A prototype exists before the objects that are linked
  to it (\<^verbatim>\<open>new\<close> links the new object to an existing one), so a link leads to a smaller
  index; the lookup stops at a link that does not.
\<close>

function lookupChain :: "obj list \<Rightarrow> nat \<Rightarrow> string \<Rightarrow> desc option" where
  "lookupChain h r k =
     (case getObj h r of
        None \<Rightarrow> None
      | Some ob \<Rightarrow>
          (case map_of (props ob) k of
             Some d \<Rightarrow> Some d
           | None \<Rightarrow>
               (case proto ob of
                  None \<Rightarrow> None
                | Some p \<Rightarrow> if p < r then lookupChain h p k else None)))"
  by pat_completeness auto
termination
  by (relation "measure (\<lambda>(h, r, k). r)") auto

declare lookupChain.simps [simp del]

definition findProp :: "obj list \<Rightarrow> nat \<Rightarrow> string \<Rightarrow> desc option" where
  "findProp h r k = lookupChain h r k"

text \<open>
  \<^verbatim>\<open>v[k]\<close>: a \<^verbatim>\<open>TypeError\<close> on \<^verbatim>\<open>undefined\<close> and \<^verbatim>\<open>null\<close>. The built-in members of
  primitives and of function values are not modelled: reading one gives \<^verbatim>\<open>undefined\<close>.
\<close>

definition jsget :: "obj list \<Rightarrow> jsval \<Rightarrow> string \<Rightarrow> error + jsval" where
  "jsget h v k =
     (case v of
        Undefined \<Rightarrow> Inl (TypeError k)
      | Null \<Rightarrow> Inl (TypeError k)
      | Ref r \<Rightarrow> (case findProp h r k of None \<Rightarrow> Inr Undefined | Some d \<Rightarrow> Inr (dvalue d))
      | _ \<Rightarrow> Inr Undefined)"

text \<open>\<^verbatim>\<open>Object.getPrototypeOf(v)\<close> for an object; \<^verbatim>\<open>null\<close> when there is none.\<close>

definition getPrototypeOf :: "obj list \<Rightarrow> jsval \<Rightarrow> error + jsval" where
  "getPrototypeOf h v =
     (case v of
        Ref r \<Rightarrow> (case getObj h r of
                    None \<Rightarrow> Inl (TypeError ''getPrototypeOf'')
                  | Some ob \<Rightarrow> (case proto ob of None \<Rightarrow> Inr Null | Some p \<Rightarrow> Inr (Ref p)))
      | Undefined \<Rightarrow> Inl (TypeError ''getPrototypeOf'')
      | Null \<Rightarrow> Inl (TypeError ''getPrototypeOf'')
      | _ \<Rightarrow> Inr Null)"

definition truthy :: "jsval \<Rightarrow> bool" where
  "truthy v = (case v of
       Undefined \<Rightarrow> False | Null \<Rightarrow> False | JBool b \<Rightarrow> b
     | JNum n \<Rightarrow> n \<noteq> 0 | JStr s \<Rightarrow> s \<noteq> [] | _ \<Rightarrow> True)"

text \<open>\<^verbatim>\<open>typeof v === 'function'\<close>\<close>

definition isFunction :: "obj list \<Rightarrow> jsval \<Rightarrow> bool" where
  "isFunction h v = (case v of
       Fn l r \<Rightarrow> True | FnThrow l \<Rightarrow> True | MockWrap c t \<Rightarrow> True | DetachFn r \<Rightarrow> True
     | Ref r \<Rightarrow> (case getObj h r of None \<Rightarrow> False | Some ob \<Rightarrow> ctor ob \<noteq> None)
     | _ \<Rightarrow> False)"

subsection \<open>Property writes, definitions, construction and calls\<close>

fun putProp :: "(string \<times> 'a) list \<Rightarrow> string \<Rightarrow> 'a \<Rightarrow> (string \<times> 'a) list" where
  "putProp [] k d = [(k, d)]"
| "putProp ((k', d') # ps) k d = (if k' = k then (k, d) # ps else (k', d') # putProp ps k d)"

definition setObj :: "world \<Rightarrow> nat \<Rightarrow> obj \<Rightarrow> world" where
  "setObj w r ob = w\<lparr>heap := (heap w)[r := ob]\<rparr>"

text \<open>
  \<^verbatim>\<open>tgt[k] = v\<close> in strict mode (the loader is a module). An own writable property is
  updated; a property that is absent is created unless it is inherited read-only or the object
  is not extensible; everything else is a \<^verbatim>\<open>TypeError\<close>. Arrays and the function values
  are objects outside the heap: a write to one succeeds and is not tracked.
\<close>

definition jsset :: "world \<Rightarrow> jsval \<Rightarrow> string \<Rightarrow> jsval \<Rightarrow> unit res" where
  "jsset w tgt k v =
     (case tgt of
        Ref r \<Rightarrow>
          (case getObj (heap w) r of
             None \<Rightarrow> (Inl (TypeError k), w)
           | Some ob \<Rightarrow>
               (case map_of (props ob) k of
                  Some d \<Rightarrow>
                    if writable d
                    then (Inr (), emit (ESet r k v)
                            (setObj w r (ob\<lparr>props := putProp (props ob) k (d\<lparr>dvalue := v\<rparr>)\<rparr>)))
                    else (Inl (TypeError k), w)
                | None \<Rightarrow>
                    if (case proto ob of
                          None \<Rightarrow> True
                        | Some p \<Rightarrow> (case findProp (heap w) p k of
                                      None \<Rightarrow> True | Some d' \<Rightarrow> writable d'))
                       \<and> extensible ob
                    then (Inr (), emit (ESet r k v)
                            (setObj w r (ob\<lparr>props := putProp (props ob) k (dataProp v)\<rparr>)))
                    else (Inl (TypeError k), w)))
      | Undefined \<Rightarrow> (Inl (TypeError k), w)
      | Null \<Rightarrow> (Inl (TypeError k), w)
      | JBool b \<Rightarrow> (Inl (TypeError k), w)
      | JNum n \<Rightarrow> (Inl (TypeError k), w)
      | JStr s \<Rightarrow> (Inl (TypeError k), w)
      | _ \<Rightarrow> (Inr (), w))"

text \<open>
  Whether an object accepts the definition of a complete data descriptor \<open>d\<close> for a
  property whose current own descriptor is \<open>cur\<close>.
\<close>

definition admits :: "desc option \<Rightarrow> bool \<Rightarrow> desc \<Rightarrow> bool" where
  "admits cur ext d =
     (case cur of
        None \<Rightarrow> ext
      | Some c \<Rightarrow>
          configurable c
          \<or> (\<not> configurable d \<and> enumerable d = enumerable c
             \<and> (writable c \<or> (\<not> writable d \<and> dvalue d = dvalue c))))"

fun defineAll :: "world \<Rightarrow> nat \<Rightarrow> (string \<times> desc) list \<Rightarrow> unit res" where
  "defineAll w r [] = (Inr (), w)"
| "defineAll w r ((k, d) # ds) =
     (case getObj (heap w) r of
        None \<Rightarrow> (Inl (TypeError k), w)
      | Some ob \<Rightarrow>
          if admits (map_of (props ob) k) (extensible ob) d
          then defineAll (emit (EDefine r k d) (setObj w r (ob\<lparr>props := putProp (props ob) k d\<rparr>))) r ds
          else (Inl (TypeError k), w))"

fun allDescs :: "(string \<times> desc option) list \<Rightarrow> (string \<times> desc) list option" where
  "allDescs [] = Some []"
| "allDescs ((k, None) # ds) = None"
| "allDescs ((k, Some d) # ds) = map_option ((#) (k, d)) (allDescs ds)"

text \<open>
  \<^verbatim>\<open>Object.defineProperties(tgt, nds)\<close>: every descriptor is read first, and one that is
  \<^verbatim>\<open>undefined\<close> is a \<^verbatim>\<open>TypeError\<close> before anything is defined.
\<close>

definition defineProperties :: "world \<Rightarrow> jsval \<Rightarrow> (string \<times> desc option) list \<Rightarrow> unit res" where
  "defineProperties w tgt nds =
     (case tgt of
        Ref r \<Rightarrow> (case allDescs nds of
                    None \<Rightarrow> (Inl (TypeError ''defineProperties''), w)
                  | Some ds \<Rightarrow> defineAll w r ds)
      | _ \<Rightarrow> (Inl (TypeError ''defineProperties''), w))"

definition initVal :: "jsval list \<Rightarrow> fieldinit \<Rightarrow> jsval" where
  "initVal args fi =
     (case fi of Const v \<Rightarrow> v | Arg i \<Rightarrow> (if i < length args then args ! i else Undefined))"

definition protoOfClass :: "obj list \<Rightarrow> nat \<Rightarrow> nat option" where
  "protoOfClass h c =
     (case findProp h c ''prototype'' of
        Some d \<Rightarrow> (case dvalue d of Ref p \<Rightarrow> Some p | _ \<Rightarrow> None)
      | None \<Rightarrow> None)"

text \<open>
  \<^verbatim>\<open>new c(...args)\<close>: the new object is linked to \<^verbatim>\<open>c.prototype\<close> and gets the
  fields of the class. A value that is not a class is a \<^verbatim>\<open>TypeError\<close>.
\<close>

definition construct_new :: "world \<Rightarrow> jsval \<Rightarrow> jsval list \<Rightarrow> nat res" where
  "construct_new w c args =
     (case c of
        Ref r \<Rightarrow>
          (case getObj (heap w) r of
             None \<Rightarrow> (Inl (TypeError ''new''), w)
           | Some cl \<Rightarrow>
               (case ctor cl of
                  None \<Rightarrow> (Inl (TypeError ''new''), w)
                | Some fs \<Rightarrow>
                    (Inr (length (heap w)),
                     emit (ENew c args (length (heap w)))
                       (w\<lparr>heap := heap w @
                          [\<lparr>props = fold (\<lambda>(k, fi) ps. putProp ps k (dataProp (initVal args fi))) fs [],
                            proto = protoOfClass (heap w) r,
                            extensible = True,
                            ctor = None\<rparr>]\<rparr>))))
      | _ \<Rightarrow> (Inl (TypeError ''new''), w))"

text \<open>Calling a function value with a receiver and arguments.\<close>

fun call :: "world \<Rightarrow> jsval \<Rightarrow> jsval \<Rightarrow> jsval list \<Rightarrow> jsval res" where
  "call w (Fn l r) this args = (Inr r, emit (ECall l this args) w)"
| "call w (FnThrow l) this args = (Inl (Thrown l), emit (ECall l this args) w)"
| "call w (MockWrap cb t) this args = call w cb Undefined (t # args)"
| "call w (DetachFn r) this args =
     (Inr (JBool (r \<in> set (instances w))),
      emit (EDelete r) (w\<lparr>instances := removeAll r (instances w)\<rparr>))"
| "call w v this args = (Inl (TypeError ''call''), w)"

text \<open>\<^verbatim>\<open>o[k](...args)\<close>, the method call of the loader's call sites.\<close>

definition invoke :: "world \<Rightarrow> jsval \<Rightarrow> string \<Rightarrow> jsval list \<Rightarrow> jsval res" where
  "invoke w ob k args =
     (case jsget (heap w) ob k of
        Inl e \<Rightarrow> (Inl e, w)
      | Inr f \<Rightarrow> call (emit (EInvoke k ob args) w) f ob args)"

section \<open>The registry, as far as the loader uses it\<close>

definition lowerChar :: "char \<Rightarrow> char" where
  "lowerChar c =
     (if (65::nat) \<le> of_char c \<and> of_char c \<le> (90::nat) then char_of (of_char c + (32::nat)) else c)"

definition toLowerCase :: "string \<Rightarrow> string" where
  "toLowerCase s = map lowerChar s"

text \<open>
  Modelled from the spec: the registry class (\<^verbatim>\<open>Snowboard\<close>) is not among the sources. The
  spec gives \<^verbatim>\<open>hasPlugin\<close> and \<^verbatim>\<open>hasTrait\<close> as case-insensitive existence checks that never
  raise, and \<^verbatim>\<open>getPluginNames\<close> as all registered plugin names.

  The loader holds the registry behind the internal mediator, which resolves a member name to a
  plugin before it looks at the registry itself. The loader's calls of \<^verbatim>\<open>hasPlugin\<close>,
  \<^verbatim>\<open>getPluginNames\<close>, \<^verbatim>\<open>hasTrait\<close>, \<^verbatim>\<open>getTrait\<close> and \<^verbatim>\<open>warning\<close> are taken to reach
  the registry: no plugin is registered under one of these five names.
\<close>

definition hasPlugin :: "world \<Rightarrow> string \<Rightarrow> bool" where
  "hasPlugin w n = List.member (map toLowerCase (pluginNames w)) (toLowerCase n)"

definition getPluginNames :: "world \<Rightarrow> string list" where
  "getPluginNames w = pluginNames w"

text \<open>
  Modelled from the spec: the trait table of the registry, looked up without regard to case. A
  name that is not a string names no trait.
\<close>

definition getTrait :: "world \<Rightarrow> jsval \<Rightarrow> jsval option" where
  "getTrait w t =
     (case t of
        JStr s \<Rightarrow> map_option snd (find (\<lambda>(k, v). toLowerCase k = toLowerCase s) (traitTable w))
      | _ \<Rightarrow> None)"

definition hasTrait :: "world \<Rightarrow> jsval \<Rightarrow> bool" where
  "hasTrait w t = (getTrait w t \<noteq> None)"

text \<open>Modelled from the spec: \<^verbatim>\<open>warning\<close> reports and does not fail.\<close>

definition warning :: "world \<Rightarrow> string \<Rightarrow> world" where
  "warning w msg = emit (EWarn msg) w"

text \<open>A value inside a template literal; only strings and the simplest constants are rendered.\<close>

definition toStr :: "jsval \<Rightarrow> string" where
  "toStr v = (case v of
       JStr s \<Rightarrow> s | Undefined \<Rightarrow> ''undefined'' | Null \<Rightarrow> ''null''
     | JBool b \<Rightarrow> (if b then ''true'' else ''false'') | _ \<Rightarrow> ''[object]'')"

definition dq :: string where
  "dq = [CHR 0x22]"

fun join :: "string list \<Rightarrow> string" where
  "join [] = []"
| "join [x] = x"
| "join (x # y # ys) = x @ '', '' @ join (y # ys)"

section \<open>The plugin loader\<close>

definition bindR :: "'a res \<Rightarrow> ('a \<Rightarrow> world \<Rightarrow> 'b res) \<Rightarrow> 'b res" where
  "bindR m f = (case m of (Inl e, w) \<Rightarrow> (Inl e, w) | (Inr x, w) \<Rightarrow> f x w)"

definition bindO :: "'a res option \<Rightarrow> ('a \<Rightarrow> world \<Rightarrow> 'b res option) \<Rightarrow> 'b res option" where
  "bindO m f =
     (case m of None \<Rightarrow> None | Some (Inl e, w) \<Rightarrow> Some (Inl e, w) | Some (Inr x, w) \<Rightarrow> f x w)"

definition factoryPrototype :: "world \<Rightarrow> error + jsval" where
  "factoryPrototype w = jsget (heap w) (factory w) ''prototype''"

text \<open>\<^verbatim>\<open>hasMethod(methodName)\<close>\<close>

definition hasMethod :: "world \<Rightarrow> string \<Rightarrow> error + bool" where
  "hasMethod w methodName =
     (case factoryPrototype w of
        Inl e \<Rightarrow> Inl e
      | Inr p \<Rightarrow> (case jsget (heap w) p methodName of
                    Inl e \<Rightarrow> Inl e
                  | Inr v \<Rightarrow> Inr (isFunction (heap w) v)))"

text \<open>\<^verbatim>\<open>isSingleton()\<close>\<close>

definition isSingleton :: "world \<Rightarrow> bool res" where
  "isSingleton w =
     (case factoryPrototype w of
        Inl e \<Rightarrow> (Inl e, w)
      | Inr p \<Rightarrow> bindR (invoke w p ''isSingleton'' []) (\<lambda>r w'. (Inr (r = JBool True), w')))"

fun lowerAll :: "jsval list \<Rightarrow> error + string list" where
  "lowerAll [] = Inr []"
| "lowerAll (JStr s # xs) =
     (case lowerAll xs of Inl e \<Rightarrow> Inl e | Inr ys \<Rightarrow> Inr (toLowerCase s # ys))"
| "lowerAll (v # xs) = Inl (TypeError ''toLowerCase'')"

text \<open>\<^verbatim>\<open>getDependencies()\<close>\<close>

definition getDependencies :: "world \<Rightarrow> string list res" where
  "getDependencies w =
     (case factoryPrototype w of
        Inl e \<Rightarrow> (Inl e, w)
      | Inr p \<Rightarrow>
          bindR (invoke w p ''dependencies'' [])
            (\<lambda>r w'. case r of
                JArr xs \<Rightarrow> (case lowerAll xs of Inl e \<Rightarrow> (Inl e, w') | Inr ds \<Rightarrow> (Inr ds, w'))
              | _ \<Rightarrow> (Inl (TypeError ''map''), w')))"

text \<open>\<^verbatim>\<open>dependenciesFulfilled()\<close>\<close>

definition dependenciesFulfilled :: "world \<Rightarrow> bool res" where
  "dependenciesFulfilled w =
     bindR (getDependencies w) (\<lambda>dependencies w'. (Inr (list_all (hasPlugin w') dependencies), w'))"

definition missingMessage :: "string \<Rightarrow> string list \<Rightarrow> string" where
  "missingMessage n unmet =
     ''The '' @ dq @ n @ dq @ '' plugin requires the following plugins: '' @ join unmet"

definition unmetDependencies :: "world \<Rightarrow> string list \<Rightarrow> string list" where
  "unmetDependencies w deps = filter (\<lambda>item. \<not> List.member (getPluginNames w) item) deps"

text \<open>
  The two \<^verbatim>\<open>forEach\<close> loops that apply the mocks: every iteration reads
  \<^verbatim>\<open>instance.prototype\<close> and writes one member of it.
\<close>

fun writeAll :: "world \<Rightarrow> jsval \<Rightarrow> (string \<times> jsval) list \<Rightarrow> unit res" where
  "writeAll w inst [] = (Inr (), w)"
| "writeAll w inst ((k, v) # kvs) =
     (case jsget (heap w) inst ''prototype'' of
        Inl e \<Rightarrow> (Inl e, w)
      | Inr p \<Rightarrow> bindR (jsset w p k v) (\<lambda>_ w'. writeAll w' inst kvs))"

definition applyMocks :: "world \<Rightarrow> jsval \<Rightarrow> unit res" where
  "applyMocks w inst =
     (if mocks w \<noteq> []
      then bindR (writeAll w inst (originalFunctions w))
             (\<lambda>_ w'. writeAll w' inst (map (\<lambda>(k, cb). (k, MockWrap cb inst)) (mocks w')))
      else (Inr (), w))"

definition setAdd :: "nat list \<Rightarrow> nat \<Rightarrow> nat list" where
  "setAdd xs x = (if List.member xs x then xs else xs @ [x])"

definition firstInstance :: "world \<Rightarrow> jsval" where
  "firstInstance w = (case instances w of [] \<Rightarrow> Undefined | r # rs \<Rightarrow> Ref r)"

subsection \<open>Trait composition: \<^verbatim>\<open>loadTraits\<close>\<close>

definition reservedNames :: "string list" where
  "reservedNames =
     [''constructor'', ''construct'', ''init'', ''getSnowboard'', ''destruct'', ''destructor'',
      ''detach'']"

definition currentTraitsOf :: "world \<Rightarrow> jsval \<Rightarrow> jsval list res" where
  "currentTraitsOf w cur =
     (case jsget (heap w) cur ''traits'' of
        Inl e \<Rightarrow> (Inl e, w)
      | Inr t \<Rightarrow>
          if truthy t \<and> isFunction (heap w) t
          then bindR (invoke w cur ''traits'' [])
                 (\<lambda>r w'. case r of
                     JArr xs \<Rightarrow> (Inr xs, w')
                   | _ \<Rightarrow> (Inl (TypeError ''forEach''), w'))
          else (Inr [], w))"

definition addTraits :: "jsval list \<Rightarrow> jsval list \<Rightarrow> jsval list" where
  "addTraits traits xs = fold (\<lambda>t acc. if List.member acc t then acc else acc @ [t]) xs traits"

text \<open>
  The \<^verbatim>\<open>while\<close> loop of \<^verbatim>\<open>loadTraits\<close>. It steps from an object to the value of its
  \<^verbatim>\<open>prototype\<close> member until it meets an object whose constructor is named
  \<^verbatim>\<open>Object\<close>; nothing bounds the number of steps, so not returning is the value \<open>None\<close>.
\<close>

partial_function (option) collectTraits :: "world \<Rightarrow> jsval \<Rightarrow> jsval list \<Rightarrow> jsval list res option"
where
  "collectTraits w cur traits =
     (case jsget (heap w) cur ''constructor'' of
        Inl e \<Rightarrow> Some (Inl e, w)
      | Inr c \<Rightarrow>
          (case jsget (heap w) c ''name'' of
             Inl e \<Rightarrow> Some (Inl e, w)
           | Inr n \<Rightarrow>
               if n = JStr ''Object'' then Some (Inr traits, w)
               else (case currentTraitsOf w cur of
                       (Inl e, w1) \<Rightarrow> Some (Inl e, w1)
                     | (Inr ts, w1) \<Rightarrow>
                         (case jsget (heap w1) cur ''prototype'' of
                            Inl e \<Rightarrow> Some (Inl e, w1)
                          | Inr p \<Rightarrow> collectTraits w1 p (addTraits traits ts)))))"

declare collectTraits.simps [code]

text \<open>\<^verbatim>\<open>Object.getOwnPropertyNames\<close> and \<^verbatim>\<open>Object.keys\<close> of a heap object.\<close>

definition getOwnPropertyNames :: "obj list \<Rightarrow> nat \<Rightarrow> string list" where
  "getOwnPropertyNames h r = (case getObj h r of None \<Rightarrow> [] | Some ob \<Rightarrow> map fst (props ob))"

definition objectKeys :: "obj list \<Rightarrow> nat \<Rightarrow> string list" where
  "objectKeys h r =
     (case getObj h r of
        None \<Rightarrow> []
      | Some ob \<Rightarrow> map fst (filter (\<lambda>(k, d). enumerable d) (props ob)))"

type_synonym descriptors = "(string \<times> desc option) list"

text \<open>
  The first \<^verbatim>\<open>reduce\<close>: the descriptors of the trait instance's own enumerable fields. The
  descriptors are kept in the order in which their names were first assigned, which is the
  order of \<^verbatim>\<open>Object.keys\<close> for names that are not array indices.
\<close>

definition fieldDescriptors :: "obj list \<Rightarrow> nat \<Rightarrow> descriptors" where
  "fieldDescriptors h ti =
     fold (\<lambda>key acc. putProp acc key (getOwnPropertyDescriptor h ti key)) (objectKeys h ti) []"

text \<open>
  The loop over \<^verbatim>\<open>Object.getOwnPropertyNames(TraitInstance)\<close>; \<open>gp\<close> is
  \<^verbatim>\<open>Object.getPrototypeOf(TraitInstance)\<close>.
\<close>

fun methodDescriptors :: "obj list \<Rightarrow> jsval \<Rightarrow> string list \<Rightarrow> descriptors \<Rightarrow> error + descriptors"
where
  "methodDescriptors h gp [] acc = Inr acc"
| "methodDescriptors h gp (n # ns) acc =
     (if List.member reservedNames n then methodDescriptors h gp ns acc
      else (case gp of
              Ref p \<Rightarrow> methodDescriptors h gp ns (putProp acc n (getOwnPropertyDescriptor h p n))
            | _ \<Rightarrow> Inl (TypeError ''getOwnPropertyDescriptor'')))"

text \<open>The filter on \<^verbatim>\<open>Object.getPrototypeOf(instance)[key] === undefined\<close>.\<close>

fun filterNew :: "obj list \<Rightarrow> jsval \<Rightarrow> descriptors \<Rightarrow> error + descriptors" where
  "filterNew h inst [] = Inr []"
| "filterNew h inst ((k, d) # ds) =
     (case getPrototypeOf h inst of
        Inl e \<Rightarrow> Inl e
      | Inr gp \<Rightarrow>
          (case jsget h gp k of
             Inl e \<Rightarrow> Inl e
           | Inr v \<Rightarrow>
               (case filterNew h inst ds of
                  Inl e \<Rightarrow> Inl e
                | Inr r \<Rightarrow> Inr (if v = Undefined then (k, d) # r else r))))"

definition traitWarning :: "world \<Rightarrow> jsval \<Rightarrow> string" where
  "traitWarning w t =
     ''Trait '' @ dq @ toStr t @ dq @ '' does not exist and cannot be applied to '' @ dq @ lname w @ dq"

text \<open>The body of \<^verbatim>\<open>traits.forEach\<close> for one trait name.\<close>

definition applyTrait :: "world \<Rightarrow> jsval \<Rightarrow> jsval \<Rightarrow> unit res" where
  "applyTrait w instance trait =
     (if hasTrait w trait = False then (Inr (), warning w (traitWarning w trait))
      else case getTrait w trait of
        None \<Rightarrow> (Inl (TypeError ''new''), w)
      | Some TraitInstance \<Rightarrow>
          bindR (construct_new w TraitInstance [])
            (\<lambda>ti w1.
               case TraitInstance of
                 Ref c \<Rightarrow>
                   (case getPrototypeOf (heap w1) TraitInstance of
                      Inl e \<Rightarrow> (Inl e, w1)
                    | Inr gp \<Rightarrow>
                        (case methodDescriptors (heap w1) gp (getOwnPropertyNames (heap w1) c)
                                (fieldDescriptors (heap w1) ti) of
                           Inl e \<Rightarrow> (Inl e, w1)
                         | Inr descriptors \<Rightarrow>
                             (case filterNew (heap w1) instance descriptors of
                                Inl e \<Rightarrow> (Inl e, w1)
                              | Inr newDescriptors \<Rightarrow>
                                  bindR (defineProperties w1 instance newDescriptors)
                                    (\<lambda>_ w2.
                                       case jsget (heap w2) (Ref ti) ''construct'' of
                                         Inl e \<Rightarrow> (Inl e, w2)
                                       | Inr f \<Rightarrow>
                                           if truthy f
                                           then bindR (call w2 f instance []) (\<lambda>_ w3. (Inr (), w3))
                                           else (Inr (), w2)))))
               | _ \<Rightarrow> (Inl (TypeError ''new''), w1)))"

fun applyTraits :: "world \<Rightarrow> jsval \<Rightarrow> jsval list \<Rightarrow> unit res" where
  "applyTraits w instance [] = (Inr (), w)"
| "applyTraits w instance (t # ts) =
     bindR (applyTrait w instance t) (\<lambda>_ w'. applyTraits w' instance ts)"

definition loadTraits :: "world \<Rightarrow> jsval \<Rightarrow> unit res option" where
  "loadTraits w instance =
     bindO (collectTraits w instance []) (\<lambda>traits w'. Some (applyTraits w' instance traits))"

subsection \<open>Instances\<close>

text \<open>
  The steps that \<^verbatim>\<open>initialiseSingleton\<close> and the last part of \<^verbatim>\<open>getInstance\<close>
  share: the detach hook, the construct hook, the traits, the init hook, the live set.
\<close>

definition setUp :: "world \<Rightarrow> nat \<Rightarrow> jsval list \<Rightarrow> unit res option" where
  "setUp w n parameters =
     bindO (Some (jsset w (Ref n) ''detach'' (DetachFn n))) (\<lambda>_ w1.
     bindO (Some (invoke w1 (Ref n) ''construct'' parameters)) (\<lambda>_ w2.
     bindO (loadTraits w2 (Ref n)) (\<lambda>_ w3.
     bindO (Some (invoke w3 (Ref n) ''init'' [])) (\<lambda>_ w4.
     Some (Inr (), emit (EAdd n) (w4\<lparr>instances := setAdd (instances w4) n\<rparr>))))))"

text \<open>\<^verbatim>\<open>initialiseSingleton(...parameters)\<close>\<close>

definition initialiseSingleton :: "world \<Rightarrow> jsval list \<Rightarrow> unit res option" where
  "initialiseSingleton w parameters =
     bindO (Some (isSingleton w)) (\<lambda>single w1.
       if \<not> single then Some (Inr (), w1)
       else
         bindO (Some (construct_new w1 (factory w1) (Handle # parameters))) (\<lambda>n w2.
         bindO (setUp w2 n parameters) (\<lambda>_ w3.
         Some (Inr (), w3\<lparr>initialised := True\<rparr>))))"

text \<open>\<^verbatim>\<open>getInstance(...parameters)\<close>\<close>

definition getInstance :: "world \<Rightarrow> jsval list \<Rightarrow> jsval res option" where
  "getInstance w parameters =
     bindO (Some (dependenciesFulfilled w)) (\<lambda>fulfilled w1.
       if \<not> fulfilled
       then bindO (Some (getDependencies w1)) (\<lambda>deps w2.
              Some (Inl (MissingDependency (missingMessage (lname w2) (unmetDependencies w2 deps))), w2))
       else
         bindO (Some (isSingleton w1)) (\<lambda>single w2.
           if single
           then
             bindO (if instances w2 = [] then initialiseSingleton w2 parameters
                    else Some (Inr (), w2)) (\<lambda>_ w3.
             bindO (Some (applyMocks w3 (firstInstance w3))) (\<lambda>_ w4.
             Some (Inr (firstInstance w3), w4)))
           else
             bindO (Some (construct_new w2 (factory w2) (Handle # parameters))) (\<lambda>n w3.
             bindO (Some (applyMocks w3 (Ref n))) (\<lambda>_ w4.
             bindO (setUp w4 n parameters) (\<lambda>_ w5.
             Some (Inr (Ref n), w5))))))"

subsection \<open>Mocks\<close>

definition unknownMethodMessage :: "string \<Rightarrow> string" where
  "unknownMethodMessage m = ''Function '' @ dq @ m @ dq @ '' does not exist and cannot be mocked''"

text \<open>\<^verbatim>\<open>mock(methodName, callback)\<close>\<close>

definition mock :: "world \<Rightarrow> string \<Rightarrow> jsval \<Rightarrow> unit res option" where
  "mock w methodName callback =
     (case factoryPrototype w of
        Inl e \<Rightarrow> Some (Inl e, w)
      | Inr p \<Rightarrow>
          (case jsget (heap w) p methodName of
             Inl e \<Rightarrow> Some (Inl e, w)
           | Inr member \<Rightarrow>
               if \<not> truthy member then Some (Inl (UnknownMethod (unknownMethodMessage methodName)), w)
               else
                 bindO (Some (Inr (), w\<lparr>mocks := putProp (mocks w) methodName callback\<rparr>)) (\<lambda>_ w1.
                 bindO (Some (case getPrototypeOf (heap w1) (factory w1) of
                                Inl e \<Rightarrow> (Inl e, w1)
                              | Inr gp \<Rightarrow> (case jsget (heap w1) gp methodName of
                                            Inl e \<Rightarrow> (Inl e, w1)
                                          | Inr orig \<Rightarrow> (Inr orig, w1)))) (\<lambda>orig w2.
                 bindO (Some (isSingleton
                          (w2\<lparr>originalFunctions := putProp (originalFunctions w2) methodName orig\<rparr>)))
                   (\<lambda>single w3.
                 if single \<and> instances w3 = []
                 then
                   bindO (initialiseSingleton w3 []) (\<lambda>_ w4.
                   bindO (Some (case jsget (heap w4) (firstInstance w4) ''prototype'' of
                                  Inl e \<Rightarrow> (Inl e, w4)
                                | Inr ip \<Rightarrow> jsset w4 ip methodName (MockWrap callback LoaderThis)))
                     (\<lambda>_ w5. Some (Inr (), w5)))
                 else Some (Inr (), w3))))))"

definition mapGet :: "(string \<times> jsval) list \<Rightarrow> string \<Rightarrow> jsval" where
  "mapGet m k = (case map_of m k of None \<Rightarrow> Undefined | Some v \<Rightarrow> v)"

definition mapDelete :: "(string \<times> jsval) list \<Rightarrow> string \<Rightarrow> (string \<times> jsval) list" where
  "mapDelete m k = filter (\<lambda>(k', v). k' \<noteq> k) m"

text \<open>\<^verbatim>\<open>unmock(methodName)\<close>\<close>

definition unmock :: "world \<Rightarrow> string \<Rightarrow> unit res" where
  "unmock w methodName =
     (if map_of (mocks w) methodName = None then (Inr (), w)
      else
        bindR (isSingleton w) (\<lambda>single w1.
        bindR (if single
               then (case jsget (heap w1) (firstInstance w1) ''prototype'' of
                       Inl e \<Rightarrow> (Inl e, w1)
                     | Inr ip \<Rightarrow> jsset w1 ip methodName (mapGet (originalFunctions w1) methodName))
               else (Inr (), w1)) (\<lambda>_ w2.
        (Inr (), w2\<lparr>mocks := mapDelete (mocks w2) methodName,
                     originalFunctions := mapDelete (originalFunctions w2) methodName\<rparr>))))"

subsection \<open>The destructor of \<^verbatim>\<open>PluginBase\<close>\<close>

text \<open>\<^verbatim>\<open>destructor()\<close> with the receiver \<open>this\<close>\<close>

definition destructor :: "world \<Rightarrow> jsval \<Rightarrow> unit res" where
  "destructor w this =
     bindR (invoke w this ''destruct'' []) (\<lambda>_ w1.
     bindR (invoke w1 this ''detach'' []) (\<lambda>_ w2.
     jsset w2 this ''destructed'' (JBool True)))"

section \<open>The internal mediator: \<^verbatim>\<open>InnerProxyHandler.get\<close>\<close>

datatype propkey = PString string | PSymbol nat

text \<open>
  What a read resolves to: the arrow function that obtains an instance of the plugin with the
  given lower-cased name, or \<^verbatim>\<open>Reflect.get(target, prop, receiver)\<close>, the registry's own
  member.
\<close>

datatype resolved = PluginCallable string | RegistryMember propkey

definition forbiddenNames :: "string list" where
  "forbiddenNames = [''attachAbstracts'', ''loadInbuilt'', ''initialise'', ''initialiseSingletons'']"

definition forbiddenMessage :: "string \<Rightarrow> string" where
  "forbiddenMessage prop =
     ''You cannot use the '' @ dq @ prop @ dq @ '' Snowboard method within a plugin.''"

definition innerGet :: "world \<Rightarrow> propkey \<Rightarrow> error + resolved" where
  "innerGet target prop =
     (case prop of
        PString s \<Rightarrow>
          if List.member forbiddenNames s then Inl (ForbiddenOperation (forbiddenMessage s))
          else if hasPlugin target (toLowerCase s) then Inr (PluginCallable (toLowerCase s))
          else Inr (RegistryMember prop)
      | PSymbol n \<Rightarrow> Inr (RegistryMember prop))"

section \<open>Auxiliary notions for the proofs\<close>

text \<open>
  What an operation may change: \<open>frame Q w w'\<close> holds when \<open>w'\<close> differs from \<open>w\<close> at most in
  the heap, which has not shrunk, in the live set, which has not grown, and in the log, which
  has grown by events that satisfy \<open>Q\<close>. \<open>lowError\<close> holds of a result that is a value, a
  \<^verbatim>\<open>TypeError\<close> or an exception thrown by a supplied function.
\<close>

definition lowError :: "error + 'a \<Rightarrow> bool" where
  "lowError r = (case r of Inl (TypeError s) \<Rightarrow> True | Inl (Thrown s) \<Rightarrow> True | Inl e \<Rightarrow> False | Inr x \<Rightarrow> True)"

definition frame :: "(event \<Rightarrow> bool) \<Rightarrow> world \<Rightarrow> world \<Rightarrow> bool" where
  "frame Q w w' \<longleftrightarrow>
     lname w' = lname w \<and> factory w' = factory w \<and> mocks w' = mocks w
     \<and> originalFunctions w' = originalFunctions w \<and> pluginNames w' = pluginNames w
     \<and> traitTable w' = traitTable w \<and> initialised w' = initialised w
     \<and> set (instances w') \<subseteq> set (instances w)
     \<and> length (heap w) \<le> length (heap w')
     \<and> (\<exists>evs. log w' = log w @ evs \<and> list_all Q evs)"

definition sound :: "(event \<Rightarrow> bool) \<Rightarrow> world \<Rightarrow> 'a res \<Rightarrow> bool" where
  "sound Q w m = (frame Q w (snd m) \<and> lowError (fst m))"

definition callEv :: "event \<Rightarrow> bool" where
  "callEv e = (case e of ECall l t a \<Rightarrow> True | EDelete r \<Rightarrow> True | _ \<Rightarrow> False)"

definition invokeEv :: "string \<Rightarrow> event \<Rightarrow> bool" where
  "invokeEv k e = (callEv e \<or> (\<exists>ob args. e = EInvoke k ob args))"

definition setEv :: "event \<Rightarrow> bool" where
  "setEv e = (case e of ESet r k v \<Rightarrow> True | _ \<Rightarrow> False)"

definition newEv :: "jsval \<Rightarrow> jsval list \<Rightarrow> event \<Rightarrow> bool" where
  "newEv c args e = (\<exists>n. e = ENew c args n)"

definition defineEv :: "event \<Rightarrow> bool" where
  "defineEv e = (case e of EDefine r k d \<Rightarrow> True | _ \<Rightarrow> False)"

definition traitEv :: "event \<Rightarrow> bool" where
  "traitEv e = (case e of
       ENew c args n \<Rightarrow> args = [] | EDefine r k d \<Rightarrow> True | ECall l t a \<Rightarrow> True
     | EDelete r \<Rightarrow> True | EWarn m \<Rightarrow> True | EInvoke k ob args \<Rightarrow> k = ''traits''
     | _ \<Rightarrow> False)"

definition lifecycle :: "event \<Rightarrow> bool" where
  "lifecycle e = (case e of
       ENew c args n \<Rightarrow> args \<noteq> []
     | EInvoke k ob args \<Rightarrow> k = ''construct'' \<or> k = ''init''
     | _ \<Rightarrow> False)"

definition cycles :: "event list \<Rightarrow> event list" where
  "cycles evs = filter lifecycle evs"

definition agree :: "string \<Rightarrow> obj list \<Rightarrow> obj list \<Rightarrow> bool" where
  "agree k h h' \<longleftrightarrow>
     length h \<le> length h'
     \<and> (\<forall>x < length h. proto (h' ! x) = proto (h ! x)
            \<and> map_of (props (h' ! x)) k = map_of (props (h ! x)) k)"

definition warnings :: "event list \<Rightarrow> string list" where
  "warnings evs = concat (map (\<lambda>e. case e of EWarn m \<Rightarrow> [m] | _ \<Rightarrow> []) evs)"

section \<open>The order of steps that claim C4 gives\<close>

text \<open>
  \<open>getInstanceClaimed\<close> follows the words of the claim, not the source: for a plugin that is
  no singleton it runs the factory, attaches the detach hook, calls the construct hook, composes
  the traits, calls the init hook, records the instance as live, and applies the mocks last.
  Everything else is as in \<open>getInstance\<close>, with which it is compared below.
\<close>

definition getInstanceClaimed :: "world \<Rightarrow> jsval list \<Rightarrow> jsval res option" where
  "getInstanceClaimed w parameters =
     bindO (Some (dependenciesFulfilled w)) (\<lambda>fulfilled w1.
       if \<not> fulfilled
       then bindO (Some (getDependencies w1)) (\<lambda>deps w2.
              Some (Inl (MissingDependency (missingMessage (lname w2) (unmetDependencies w2 deps))), w2))
       else
         bindO (Some (isSingleton w1)) (\<lambda>single w2.
           if single
           then
             bindO (if instances w2 = [] then initialiseSingleton w2 parameters
                    else Some (Inr (), w2)) (\<lambda>_ w3.
             bindO (Some (applyMocks w3 (firstInstance w3))) (\<lambda>_ w4.
             Some (Inr (firstInstance w3), w4)))
           else
             bindO (Some (construct_new w2 (factory w2) (Handle # parameters))) (\<lambda>n w3.
             bindO (setUp w3 n parameters) (\<lambda>_ w4.
             bindO (Some (applyMocks w4 (Ref n))) (\<lambda>_ w5.
             Some (Inr (Ref n), w5))))))"

text \<open>
  The events that mark the steps for the instance \<open>n\<close>: its creation, the write of a mock
  bound to it, the write of its detach hook, the calls of its construct and init hooks, its
  entry into the live set.
\<close>

definition stepEv :: "nat \<Rightarrow> event \<Rightarrow> bool" where
  "stepEv n e =
     (case e of
        ENew c args m \<Rightarrow> m = n
      | ESet r k v \<Rightarrow> (case v of MockWrap cb t \<Rightarrow> t = Ref n | _ \<Rightarrow> r = n \<and> k = ''detach'')
      | EInvoke k ob args \<Rightarrow> ob = Ref n \<and> (k = ''construct'' \<or> k = ''init'')
      | EAdd m \<Rightarrow> m = n
      | _ \<Rightarrow> False)"

section \<open>The loader's constructor and a concrete registry\<close>

text \<open>\<^verbatim>\<open>Object.freeze\<close> on a heap object.\<close>

definition freeze :: "obj \<Rightarrow> obj" where
  "freeze ob =
     ob\<lparr>props := map (\<lambda>(k, d). (k, d\<lparr>writable := False, configurable := False\<rparr>)) (props ob),
        extensible := False\<rparr>"

text \<open>
  \<^verbatim>\<open>new PluginLoader(name, snowboard, instance)\<close>: the registry is given by the heap, the
  plugin names and the trait table. The constructor freezes the plugin class.
\<close>

definition PluginLoader ::
  "string \<Rightarrow> obj list \<Rightarrow> string list \<Rightarrow> (string \<times> jsval) list \<Rightarrow> jsval \<Rightarrow> world" where
  "PluginLoader n h names traits instance =
     \<lparr>heap = (case instance of
                Ref r \<Rightarrow> (if r < length h then h[r := freeze (h ! r)] else h)
              | _ \<Rightarrow> h),
      lname = n, factory = instance, instances = [], initialised = False,
      mocks = [], originalFunctions = [],
      pluginNames = names, traitTable = traits, log = []\<rparr>"

text \<open>
  A heap with the classes of the sources (\<^verbatim>\<open>PluginBase\<close>, \<^verbatim>\<open>Trait\<close>) and with two traits
  and two plugins written against them:
  \<^verbatim>\<open>
  class A extends Trait { bar = 'A'; foo() { return 'A'; } }
  class B extends Trait { bar = 'B'; foo() { return 'B'; } }
  class Widget extends PluginBase {
      prototype = Widget.prototype; version = ...; count = ...;   // the last two on the prototype
      dependencies() { return ['Modal']; }
      traits() { return ['a', 'b']; }
      m() { return 'original'; }
  }
  class Single extends PluginBase {
      prototype = Single.prototype;
      isSingleton() { return true; }
      m() { return 'original'; }
  }
  \<close>
  The loader reads \<^verbatim>\<open>x.prototype\<close> on instances and on their prototypes. \<^verbatim>\<open>PluginBase\<close>
  declares no such member, so the plugins here provide it: an instance holds its class's
  prototype object in the field \<^verbatim>\<open>prototype\<close>, and each prototype object holds its parent
  in a member of the same name, so that \<^verbatim>\<open>x.prototype\<close> is \<^verbatim>\<open>Object.getPrototypeOf(x)\<close> all
  along the chain.
\<close>

definition fnProp :: "jsval \<Rightarrow> desc" where
  "fnProp v = \<lparr>dvalue = v, writable = False, enumerable = False, configurable = True\<rparr>"

definition fixedProp :: "jsval \<Rightarrow> desc" where
  "fixedProp v = \<lparr>dvalue = v, writable = False, enumerable = False, configurable = False\<rparr>"

definition classObj ::
  "string \<Rightarrow> int \<Rightarrow> nat \<Rightarrow> nat \<Rightarrow> (string \<times> fieldinit) list \<Rightarrow> obj" where
  "classObj n len pr parent fs =
     \<lparr>props = [(''length'', fnProp (JNum len)), (''name'', fnProp (JStr n)),
               (''prototype'', fixedProp (Ref pr))],
      proto = Some parent, extensible = True, ctor = Some fs\<rparr>"

definition protoObj :: "nat \<Rightarrow> nat option \<Rightarrow> (string \<times> jsval) list \<Rightarrow> obj" where
  "protoObj cls parent members =
     \<lparr>props = (''constructor'', methodProp (Ref cls)) # map (\<lambda>(k, v). (k, methodProp v)) members,
      proto = parent, extensible = True, ctor = None\<rparr>"

definition demoHeap :: "obj list" where
  "demoHeap =
     [protoObj 2 None [],
      \<lparr>props = [(''length'', fnProp (JNum 0)), (''name'', fnProp (JStr ''''))],
        proto = Some 0, extensible = True, ctor = None\<rparr>,
      classObj ''Object'' 1 0 1 [],
      protoObj 4 (Some 0)
        [(''getSnowboard'', Fn ''PluginBase.getSnowboard'' Handle),
         (''isSingleton'', Fn ''PluginBase.isSingleton'' (JBool False)),
         (''construct'', Fn ''PluginBase.construct'' Undefined),
         (''init'', Fn ''PluginBase.init'' Undefined),
         (''dependencies'', Fn ''PluginBase.dependencies'' (JArr [])),
         (''traits'', Fn ''PluginBase.traits'' (JArr [])),
         (''listens'', Fn ''PluginBase.listens'' Null),
         (''destruct'', Fn ''PluginBase.destruct'' Undefined),
         (''detach'', Fn ''PluginBase.detach'' Undefined),
         (''destructor'', Fn ''PluginBase.destructor'' Undefined),
         (''prototype'', Ref 0)],
      classObj ''PluginBase'' 1 3 1 [(''snowboard'', Arg 0), (''destructed'', Const (JBool False))],
      protoObj 6 (Some 0)
        [(''construct'', Fn ''Trait.construct'' Undefined),
         (''getSnowboard'', Fn ''Trait.getSnowboard'' Undefined),
         (''dependencies'', Fn ''Trait.dependencies'' (JArr [])),
         (''listens'', Fn ''Trait.listens'' Null)],
      classObj ''Trait'' 1 5 1 [(''snowboard'', Arg 0)],
      protoObj 8 (Some 5) [(''foo'', Fn ''A.foo'' (JStr ''A''))],
      classObj ''A'' 0 7 6 [(''snowboard'', Arg 0), (''bar'', Const (JStr ''A''))],
      protoObj 10 (Some 5) [(''foo'', Fn ''B.foo'' (JStr ''B''))],
      classObj ''B'' 0 9 6 [(''snowboard'', Arg 0), (''bar'', Const (JStr ''B''))],
      protoObj 12 (Some 3)
        [(''dependencies'', Fn ''Widget.dependencies'' (JArr [JStr ''Modal''])),
         (''traits'', Fn ''Widget.traits'' (JArr [JStr ''a'', JStr ''b''])),
         (''m'', Fn ''Widget.m'' (JStr ''original'')),
         (''version'', JStr ''1.0''),
         (''count'', JNum 0),
         (''prototype'', Ref 3)],
      classObj ''Widget'' 0 11 4
        [(''snowboard'', Arg 0), (''destructed'', Const (JBool False)),
         (''prototype'', Const (Ref 11))],
      protoObj 14 (Some 3)
        [(''isSingleton'', Fn ''Single.isSingleton'' (JBool True)),
         (''m'', Fn ''Single.m'' (JStr ''original'')),
         (''prototype'', Ref 3)],
      classObj ''Single'' 0 13 4
        [(''snowboard'', Arg 0), (''destructed'', Const (JBool False)),
         (''prototype'', Const (Ref 13))]]"

definition demoTraits :: "(string \<times> jsval) list" where
  "demoTraits = [(''a'', Ref 8), (''b'', Ref 10)]"

definition widgetLoader :: world where
  "widgetLoader = PluginLoader ''widget'' demoHeap [''modal'', ''widget'', ''single''] demoTraits (Ref 12)"

definition singleLoader :: world where
  "singleLoader = PluginLoader ''single'' demoHeap [''modal'', ''widget'', ''single''] demoTraits (Ref 14)"

text \<open>The same loader in a registry where the plugin \<^verbatim>\<open>modal\<close> is not registered.\<close>

definition lonelyWidgetLoader :: world where
  "lonelyWidgetLoader = PluginLoader ''widget'' demoHeap [''widget''] demoTraits (Ref 12)"

text \<open>The widget loader after one call of \<^verbatim>\<open>getInstance()\<close>: the instance is object 15.\<close>

definition widgetLive :: world where
  "widgetLive = (case getInstance widgetLoader [] of Some (r, w) \<Rightarrow> w | None \<Rightarrow> widgetLoader)"

text \<open>The singleton loader after one call of \<^verbatim>\<open>getInstance(7)\<close>.\<close>

definition singleLive :: world where
  "singleLive =
     (case getInstance singleLoader [JNum 7] of Some (r, w) \<Rightarrow> w | None \<Rightarrow> singleLoader)"

text \<open>
  A registry in which the trait \<^verbatim>\<open>a\<close> is not registered, and the state of the widget loader
  in it when the factory has produced the instance (object 15) and no trait is applied yet.
\<close>

definition partialWidgetLoader :: world where
  "partialWidgetLoader =
     PluginLoader ''widget'' demoHeap [''modal'', ''widget'', ''single''] [(''b'', Ref 10)] (Ref 12)"

definition partialWidgetNew :: world where
  "partialWidgetNew = snd (construct_new partialWidgetLoader (Ref 12) [Handle])"

text \<open>
  The heap extended by a trait that uses reserved names and a plugin that requests it:
  \<^verbatim>\<open>
  class C extends Trait { init = () => {}; baz = 'C'; destruct() {}; static detach() {} }
  class Gadget extends PluginBase { prototype = Gadget.prototype; traits() { return ['c']; } }
  \<close>
  \<open>gadgetNew\<close> is the state of the gadget's loader when the factory has produced the
  instance (object 19) and no trait is applied yet.
\<close>

definition demoHeap2 :: "obj list" where
  "demoHeap2 = demoHeap @
     [protoObj 16 (Some 5) [(''destruct'', Fn ''C.destruct'' Undefined)],
      (classObj ''C'' 0 15 6
         [(''snowboard'', Arg 0), (''init'', Const (Fn ''C.init'' Undefined)),
          (''baz'', Const (JStr ''C''))])
        \<lparr>props := props (classObj ''C'' 0 15 6 [])
                    @ [(''detach'', methodProp (Fn ''C.detach'' Undefined))]\<rparr>,
      protoObj 18 (Some 3)
        [(''traits'', Fn ''Gadget.traits'' (JArr [JStr ''c''])), (''prototype'', Ref 3)],
      classObj ''Gadget'' 0 17 4
        [(''snowboard'', Arg 0), (''destructed'', Const (JBool False)),
         (''prototype'', Const (Ref 17))]]"

definition gadgetLoader :: world where
  "gadgetLoader = PluginLoader ''gadget'' demoHeap2 [''gadget''] [(''c'', Ref 16)] (Ref 18)"

definition gadgetNew :: world where
  "gadgetNew = snd (construct_new gadgetLoader (Ref 18) [Handle])"

text \<open>
  The mock scenario on both loaders: \<^verbatim>\<open>mock('m', f)\<close>, \<^verbatim>\<open>getInstance()\<close>,
  \<^verbatim>\<open>unmock('m')\<close>, \<^verbatim>\<open>getInstance()\<close>.
\<close>

definition mockF :: jsval where
  "mockF = Fn ''f'' (JStr ''mocked'')"

definition afterMock :: "world \<Rightarrow> world" where
  "afterMock w = (case mock w ''m'' mockF of Some (r, w') \<Rightarrow> w' | None \<Rightarrow> w)"

definition afterGet :: "world \<Rightarrow> world" where
  "afterGet w = (case getInstance w [] of Some (r, w') \<Rightarrow> w' | None \<Rightarrow> w)"

definition widgetMocked :: world where
  "widgetMocked = afterMock widgetLoader"

definition widgetMockedLive :: world where
  "widgetMockedLive = afterGet widgetMocked"

definition widgetUnmocked :: world where
  "widgetUnmocked = snd (unmock widgetMockedLive ''m'')"

definition widgetUnmockedLive :: world where
  "widgetUnmockedLive = afterGet widgetUnmocked"

definition singleMocked :: world where
  "singleMocked = afterMock singleLoader"

definition singleMockedLive :: world where
  "singleMockedLive = afterGet singleMocked"

definition singleUnmocked :: world where
  "singleUnmocked = snd (unmock singleMockedLive ''m'')"

definition singleUnmockedLive :: world where
  "singleUnmockedLive = afterGet singleUnmocked"

text \<open>What the order of claim C4 would leave after \<^verbatim>\<open>getInstance()\<close> on the mocked widget.\<close>

definition widgetMockedClaimed :: world where
  "widgetMockedClaimed =
     (case getInstanceClaimed widgetMocked [] of Some (r, w') \<Rightarrow> w' | None \<Rightarrow> widgetMocked)"

text \<open>
  The same classes as they are without the \<^verbatim>\<open>prototype\<close> members: \<^verbatim>\<open>PluginBase\<close> as in
  the sources, and a widget that adds none.
\<close>

definition stripPrototype :: "obj \<Rightarrow> obj" where
  "stripPrototype ob =
     (case ctor ob of
        None \<Rightarrow> ob\<lparr>props := filter (\<lambda>(k, d). k \<noteq> ''prototype'') (props ob)\<rparr>
      | Some fs \<Rightarrow> ob\<lparr>ctor := Some (filter (\<lambda>(k, fi). k \<noteq> ''prototype'') fs)\<rparr>)"

definition plainWidgetLoader :: world where
  "plainWidgetLoader =
     PluginLoader ''widget'' (map stripPrototype demoHeap) [''modal'', ''widget'', ''single'']
       demoTraits (Ref 12)"

text \<open>
  The loaders of the singleton and of the widget on these classes, the latter in the registry
  that lacks the trait \<^verbatim>\<open>a\<close>, and their states after one and two calls of
  \<^verbatim>\<open>getInstance()\<close>.
\<close>

definition plainSingleLoader :: world where
  "plainSingleLoader =
     PluginLoader ''single'' (map stripPrototype demoHeap) [''modal'', ''widget'', ''single'']
       demoTraits (Ref 14)"

definition plainSingleOnce :: world where
  "plainSingleOnce = afterGet plainSingleLoader"

definition plainSingleTwice :: world where
  "plainSingleTwice = afterGet plainSingleOnce"

definition plainPartialWidgetLoader :: world where
  "plainPartialWidgetLoader =
     PluginLoader ''widget'' (map stripPrototype demoHeap) [''modal'', ''widget'', ''single'']
       [(''b'', Ref 10)] (Ref 12)"

definition plainPartialWidgetTried :: world where
  "plainPartialWidgetTried = afterGet plainPartialWidgetLoader"

text \<open>The live singleton loader after a direct call of \<^verbatim>\<open>initialiseSingleton()\<close>.\<close>

definition singleLiveAgain :: world where
  "singleLiveAgain =
     (case initialiseSingleton singleLive [] of Some (r, w') \<Rightarrow> w' | None \<Rightarrow> singleLive)"

section \<open>What the operations change\<close>

lemma frame_refl: "frame Q w w"
  by (simp add: frame_def)

lemma frame_trans: "frame Q w w1 \<Longrightarrow> frame Q w1 w2 \<Longrightarrow> frame Q w w2"
  by (auto simp: frame_def)

lemma frame_mono: "frame Q w w' \<Longrightarrow> (\<And>e. Q e \<Longrightarrow> Q' e) \<Longrightarrow> frame Q' w w'"
  by (auto simp: frame_def list_all_iff)

lemma sound_mono: "sound Q w m \<Longrightarrow> (\<And>e. Q e \<Longrightarrow> Q' e) \<Longrightarrow> sound Q' w m"
  by (auto simp: sound_def intro: frame_mono)

lemma frame_emit: "Q e \<Longrightarrow> frame Q w (emit e w)"
  by (simp add: frame_def emit_def)

lemma sound_bindR:
  assumes "sound Q w m" and "\<And>x w1. frame Q w w1 \<Longrightarrow> sound Q w1 (f x w1)"
  shows "sound Q w (bindR m f)"
proof (cases m)
  case (Pair r w1)
  show ?thesis
  proof (cases r)
    case (Inl e)
    with Pair assms(1) show ?thesis by (simp add: bindR_def sound_def lowError_def)
  next
    case (Inr x)
    with Pair assms(1) have f1: "frame Q w w1" by (simp add: sound_def)
    from assms(2)[OF f1, of x] have "sound Q w1 (f x w1)" .
    with f1 Pair Inr show ?thesis by (auto simp: bindR_def sound_def intro: frame_trans)
  qed
qed

lemma sound_ret: "frame Q w w' \<Longrightarrow> sound Q w (Inr x, w')"
  by (simp add: sound_def lowError_def)

lemma sound_terr: "frame Q w w' \<Longrightarrow> sound Q w (Inl (TypeError s), w')"
  by (simp add: sound_def lowError_def)

lemma sound_call: "sound callEv w (call w f this args)"
  by (induction w f this args rule: call.induct)
     (auto simp: sound_def frame_def emit_def lowError_def callEv_def)

lemma sound_invoke: "sound (invokeEv k) w (invoke w ob k args)"
proof (cases "jsget (heap w) ob k")
  case (Inl e)
  then have "\<exists>s. e = TypeError s" by (auto simp: jsget_def split: jsval.splits option.splits)
  with Inl show ?thesis by (auto simp: invoke_def sound_def frame_refl lowError_def)
next
  case (Inr f)
  have a: "frame (invokeEv k) w (emit (EInvoke k ob args) w)"
    by (rule frame_emit) (simp add: invokeEv_def)
  have "sound (invokeEv k) (emit (EInvoke k ob args) w) (call (emit (EInvoke k ob args) w) f ob args)"
    by (rule sound_mono[OF sound_call]) (simp add: invokeEv_def)
  with a Inr show ?thesis by (auto simp: invoke_def sound_def intro: frame_trans)
qed

lemma sound_jsset: "sound setEv w (jsset w tgt k v)"
  by (auto simp: jsset_def sound_def frame_def emit_def setObj_def lowError_def setEv_def
           split: jsval.splits option.splits)

lemma jsset_instances: "instances (snd (jsset w tgt k v)) = instances w"
  by (auto simp: jsset_def emit_def setObj_def split: jsval.splits option.splits)

lemma sound_construct_new: "sound (newEv c args) w (construct_new w c args)"
  by (auto simp: construct_new_def sound_def frame_def emit_def lowError_def newEv_def
           split: jsval.splits option.splits)

lemma sound_defineAll: "sound defineEv w (defineAll w r ds)"
proof (induction w r ds rule: defineAll.induct)
  case (1 w r)
  show ?case by (simp add: sound_def frame_refl lowError_def)
next
  case (2 w r k d ds)
  show ?case
  proof (cases "getObj (heap w) r")
    case None
    then show ?thesis by (simp add: sound_def frame_refl lowError_def)
  next
    case (Some ob)
    show ?thesis
    proof (cases "admits (map_of (props ob) k) (extensible ob) d")
      case False
      with Some show ?thesis by (simp add: sound_def frame_refl lowError_def)
    next
      case True
      let ?w1 = "emit (EDefine r k d) (setObj w r (ob\<lparr>props := putProp (props ob) k d\<rparr>))"
      have f: "frame defineEv w ?w1"
        by (simp add: frame_def emit_def setObj_def defineEv_def)
      from 2[OF Some True] have "sound defineEv ?w1 (defineAll ?w1 r ds)" .
      with f Some True show ?thesis by (auto simp: sound_def intro: frame_trans)
    qed
  qed
qed

lemma sound_defineProperties: "sound defineEv w (defineProperties w tgt nds)"
  by (auto simp: defineProperties_def sound_defineAll sound_terr frame_refl
           split: jsval.splits option.splits)

lemma factoryPrototype_err: "factoryPrototype w = Inl e \<Longrightarrow> \<exists>s. e = TypeError s"
  by (auto simp: factoryPrototype_def jsget_def split: jsval.splits option.splits)

lemma jsget_err: "jsget h v k = Inl e \<Longrightarrow> \<exists>s. e = TypeError s"
  by (auto simp: jsget_def split: jsval.splits option.splits)

lemma getPrototypeOf_err: "getPrototypeOf h v = Inl e \<Longrightarrow> \<exists>s. e = TypeError s"
  by (auto simp: getPrototypeOf_def split: jsval.splits option.splits)

lemma sound_isSingleton: "sound (invokeEv ''isSingleton'') w (isSingleton w)"
proof (cases "factoryPrototype w")
  case (Inl e)
  then show ?thesis using factoryPrototype_err[OF Inl]
    by (auto simp: isSingleton_def sound_terr frame_refl)
next
  case (Inr p)
  have "sound (invokeEv ''isSingleton'') w
          (bindR (invoke w p ''isSingleton'' []) (\<lambda>r w'. (Inr (r = JBool True), w')))"
    by (rule sound_bindR[OF sound_invoke]) (simp add: sound_ret frame_refl)
  with Inr show ?thesis by (simp add: isSingleton_def)
qed

lemma sound_getDependencies: "sound (invokeEv ''dependencies'') w (getDependencies w)"
proof (cases "factoryPrototype w")
  case (Inl e)
  then show ?thesis using factoryPrototype_err[OF Inl]
    by (auto simp: getDependencies_def sound_terr frame_refl)
next
  case (Inr p)
  have le: "\<And>xs e. lowerAll xs = Inl e \<Longrightarrow> \<exists>s. e = TypeError s"
  proof -
    fix xs e show "lowerAll xs = Inl e \<Longrightarrow> \<exists>s. e = TypeError s"
      by (induction xs rule: lowerAll.induct) (auto split: sum.splits)
  qed
  have "sound (invokeEv ''dependencies'') w
          (bindR (invoke w p ''dependencies'' [])
            (\<lambda>r w'. case r of
                JArr xs \<Rightarrow> (case lowerAll xs of Inl e \<Rightarrow> (Inl e, w') | Inr ds \<Rightarrow> (Inr ds, w'))
              | _ \<Rightarrow> (Inl (TypeError ''map''), w')))"
    by (rule sound_bindR[OF sound_invoke])
       (auto simp: sound_ret sound_terr frame_refl split: jsval.splits sum.splits dest!: le)
  with Inr show ?thesis by (simp add: getDependencies_def)
qed

lemma sound_dependenciesFulfilled:
  "sound (invokeEv ''dependencies'') w (dependenciesFulfilled w)"
  unfolding dependenciesFulfilled_def
  by (rule sound_bindR[OF sound_getDependencies]) (simp add: sound_ret frame_refl)

lemma sound_writeAll: "sound setEv w (writeAll w inst kvs)"
proof (induction w inst kvs rule: writeAll.induct)
  case (1 w inst)
  show ?case by (simp add: sound_ret frame_refl)
next
  case (2 w inst k v kvs)
  show ?case
  proof (cases "jsget (heap w) inst ''prototype''")
    case (Inl e)
    then show ?thesis using jsget_err[OF Inl] by (auto simp: sound_terr frame_refl)
  next
    case (Inr p)
    have "sound setEv w (bindR (jsset w p k v) (\<lambda>_ w'. writeAll w' inst kvs))"
      by (rule sound_bindR[OF sound_jsset]) (rule 2[OF Inr])
    with Inr show ?thesis by simp
  qed
qed

lemma sound_applyMocks: "sound setEv w (applyMocks w inst)"
  unfolding applyMocks_def
  by (auto intro!: sound_bindR sound_writeAll simp: sound_ret frame_refl)

lemma traitEv_simps:
  "callEv e \<Longrightarrow> traitEv e" "invokeEv ''traits'' e \<Longrightarrow> traitEv e"
  "defineEv e \<Longrightarrow> traitEv e" "newEv c [] e \<Longrightarrow> traitEv e"
  by (auto simp: traitEv_def callEv_def invokeEv_def defineEv_def newEv_def split: event.splits)

lemma sound_currentTraitsOf: "sound traitEv w (currentTraitsOf w cur)"
proof (cases "jsget (heap w) cur ''traits''")
  case (Inl e)
  then show ?thesis using jsget_err[OF Inl]
    by (auto simp: currentTraitsOf_def sound_terr frame_refl)
next
  case (Inr t)
  have "sound traitEv w (bindR (invoke w cur ''traits'' [])
                 (\<lambda>r w'. case r of
                     JArr xs \<Rightarrow> (Inr xs, w')
                   | _ \<Rightarrow> (Inl (TypeError ''forEach''), w')))"
    by (rule sound_bindR[OF sound_mono[OF sound_invoke]])
       (auto simp: traitEv_simps sound_ret sound_terr frame_refl split: jsval.splits)
  with Inr show ?thesis by (simp add: currentTraitsOf_def sound_ret frame_refl)
qed

lemma sound_collectTraits:
  "collectTraits w cur traits = Some m \<Longrightarrow> sound traitEv w m"
proof (induction rule: collectTraits.raw_induct[rotated 1, consumes 1, case_names step])
  case (step f w cur traits m)
  note 1 = step
  show ?case
  proof (cases "jsget (heap w) cur ''constructor''")
    case (Inl e)
    with 1(2) show ?thesis using jsget_err[OF Inl] by (auto simp: sound_terr frame_refl)
  next
    case c: (Inr c)
    show ?thesis
    proof (cases "jsget (heap w) c ''name''")
      case (Inl e)
      with 1(2) c show ?thesis using jsget_err[OF Inl] by (auto simp: sound_terr frame_refl)
    next
      case n: (Inr n)
      show ?thesis
      proof (cases "n = JStr ''Object''")
        case True
        with 1(2) c n show ?thesis by (auto simp: sound_ret frame_refl)
      next
        case False
        obtain r w1 where ct: "currentTraitsOf w cur = (r, w1)" by (cases "currentTraitsOf w cur")
        have s1: "sound traitEv w (r, w1)" using sound_currentTraitsOf[of w cur] ct by simp
        show ?thesis
        proof (cases r)
          case (Inl e)
          with 1(2) c n False ct s1 show ?thesis by auto
        next
          case ts: (Inr ts)
          from s1 have f1: "frame traitEv w w1" by (simp add: sound_def)
          show ?thesis
          proof (cases "jsget (heap w1) cur ''prototype''")
            case (Inl e)
            with 1(2) c n False ct ts f1 show ?thesis using jsget_err[OF Inl]
              by (auto simp: sound_terr)
          next
            case p: (Inr p)
            from 1(2) c n False ct ts p have "f w1 p (addTraits traits ts) = Some m"
              by simp
            from 1(1)[OF this] have "sound traitEv w1 m" .
            with f1 show ?thesis by (auto simp: sound_def intro: frame_trans)
          qed
        qed
      qed
    qed
  qed
qed

lemma methodDescriptors_err: "methodDescriptors h gp ns acc = Inl e \<Longrightarrow> \<exists>s. e = TypeError s"
  by (induction h gp ns acc rule: methodDescriptors.induct) (auto split: if_splits jsval.splits)

lemma filterNew_err: "filterNew h inst ds = Inl e \<Longrightarrow> \<exists>s. e = TypeError s"
  by (induction h inst ds rule: filterNew.induct)
     (auto split: sum.splits dest: jsget_err getPrototypeOf_err)

lemma frame_warning: "frame traitEv w (warning w m)"
  by (simp add: warning_def frame_emit traitEv_def)

lemma sound_applyTrait: "sound traitEv w (applyTrait w instance trait)"
proof (cases "hasTrait w trait")
  case False
  then show ?thesis by (simp add: applyTrait_def sound_ret frame_warning)
next
  case True
  then obtain TI where g: "getTrait w trait = Some TI" by (auto simp: hasTrait_def)
  have "sound traitEv w
     (bindR (construct_new w TI [])
            (\<lambda>ti w1.
               case TI of
                 Ref c \<Rightarrow>
                   (case getPrototypeOf (heap w1) TI of
                      Inl e \<Rightarrow> (Inl e, w1)
                    | Inr gp \<Rightarrow>
                        (case methodDescriptors (heap w1) gp (getOwnPropertyNames (heap w1) c)
                                (fieldDescriptors (heap w1) ti) of
                           Inl e \<Rightarrow> (Inl e, w1)
                         | Inr descriptors \<Rightarrow>
                             (case filterNew (heap w1) instance descriptors of
                                Inl e \<Rightarrow> (Inl e, w1)
                              | Inr newDescriptors \<Rightarrow>
                                  bindR (defineProperties w1 instance newDescriptors)
                                    (\<lambda>_ w2.
                                       case jsget (heap w2) (Ref ti) ''construct'' of
                                         Inl e \<Rightarrow> (Inl e, w2)
                                       | Inr f \<Rightarrow>
                                           if truthy f
                                           then bindR (call w2 f instance []) (\<lambda>_ w3. (Inr (), w3))
                                           else (Inr (), w2)))))
               | _ \<Rightarrow> (Inl (TypeError ''new''), w1)))"
  proof (rule sound_bindR[OF sound_mono[OF sound_construct_new]], goal_cases)
    case (1 e) then show ?case by (simp add: traitEv_simps)
  next
    case (2 ti w1)
    have inner: "\<And>nds. sound traitEv w1 (bindR (defineProperties w1 instance nds)
                                    (\<lambda>_ w2.
                                       case jsget (heap w2) (Ref ti) ''construct'' of
                                         Inl e \<Rightarrow> (Inl e, w2)
                                       | Inr f \<Rightarrow>
                                           if truthy f
                                           then bindR (call w2 f instance []) (\<lambda>_ w3. (Inr (), w3))
                                           else (Inr (), w2)))"
    proof (rule sound_bindR[OF sound_mono[OF sound_defineProperties]], goal_cases)
      case (1 nds e) then show ?case by (simp add: traitEv_simps)
    next
      case (2 nds x w2)
      show ?case
      proof (cases "jsget (heap w2) (Ref ti) ''construct''")
        case (Inl e) then show ?thesis using jsget_err[OF Inl] by (auto simp: sound_terr frame_refl)
      next
        case (Inr f)
        have "sound traitEv w2 (bindR (call w2 f instance []) (\<lambda>_ w3. (Inr (), w3)))"
          by (rule sound_bindR[OF sound_mono[OF sound_call]])
             (auto simp: traitEv_simps sound_ret frame_refl)
        with Inr show ?thesis by (simp add: sound_ret frame_refl)
      qed
    qed
    show ?case
      by (auto simp: sound_terr frame_refl inner split: jsval.splits sum.splits
               dest!: getPrototypeOf_err methodDescriptors_err filterNew_err)
  qed
  with True g show ?thesis by (simp add: applyTrait_def)
qed

lemma sound_applyTraits: "sound traitEv w (applyTraits w instance ts)"
proof (induction ts arbitrary: w)
  case Nil show ?case by (simp add: sound_ret frame_refl)
next
  case (Cons t ts)
  show ?case by (simp, rule sound_bindR[OF sound_applyTrait]) (rule Cons)
qed

lemma sound_loadTraits: "loadTraits w instance = Some m \<Longrightarrow> sound traitEv w m"
proof -
  assume a: "loadTraits w instance = Some m"
  then obtain r w1 where c: "collectTraits w instance [] = Some (r, w1)"
    by (auto simp: loadTraits_def bindO_def split: option.splits)
  from sound_collectTraits[OF c] have s1: "sound traitEv w (r, w1)" .
  show ?thesis
  proof (cases r)
    case (Inl e)
    with a c s1 show ?thesis by (auto simp: loadTraits_def bindO_def sound_def lowError_def)
  next
    case (Inr ts)
    with a c have "m = applyTraits w1 instance ts" by (simp add: loadTraits_def bindO_def)
    with s1 sound_applyTraits[of w1 _ ts] show ?thesis
      by (auto simp: sound_def intro: frame_trans)
  qed
qed

lemma bindO_SomeE:
  assumes "bindO m f = Some (r, w')"
  obtains (err) e where "m = Some (Inl e, w')" and "r = Inl e"
  | (ok) x w1 where "m = Some (Inr x, w1)" and "f x w1 = Some (r, w')"
  using assms by (auto simp: bindO_def split: option.splits prod.splits sum.splits)

lemma bindO_Inr:
  "bindO m f = Some (Inr y, w') \<Longrightarrow> \<exists>x w1. m = Some (Inr x, w1) \<and> f x w1 = Some (Inr y, w')"
  by (auto simp: bindO_def split: option.splits prod.splits sum.splits)

lemma bindR_Inr:
  "bindR m f = (Inr y, w') \<Longrightarrow> \<exists>x w1. m = (Inr x, w1) \<and> f x w1 = (Inr y, w')"
  by (auto simp: bindR_def split: prod.splits sum.splits)

lemma lowError_Inl: "lowError (Inl e :: error + 'a) = lowError (Inl e :: error + 'b)"
  by (simp add: lowError_def)

lemma setUp_lowError:
  assumes "setUp w n ps = Some (r, w')" shows "lowError r"
  using assms unfolding setUp_def
proof (elim bindO_SomeE, goal_cases)
  case (1 e)
  then show ?case using sound_jsset[of w "Ref n" "''detach''" "DetachFn n"]
    by (simp add: sound_def lowError_def)
next
  case (2 x w1 e)
  then show ?case using sound_invoke[of "''construct''" w1 "Ref n" ps]
    by (simp add: sound_def lowError_def)
next
  case (3 x w1 xa w1a e)
  then show ?case using sound_loadTraits[of w1a "Ref n"]
    by (simp add: sound_def lowError_def)
next
  case (4 x w1 xa w1a xb w1b e)
  then show ?case using sound_invoke[of "''init''" w1b "Ref n" "[]"]
    by (simp add: sound_def lowError_def)
next
  case (5 x w1 xa w1a xb w1b xc w1c)
  then show ?case by (auto simp: lowError_def)
qed

lemma initialiseSingleton_lowError:
  assumes "initialiseSingleton w ps = Some (r, w')" shows "lowError r"
  using assms unfolding initialiseSingleton_def
proof (elim bindO_SomeE, goal_cases)
  case (1 e)
  then show ?case using sound_isSingleton[of w] by (simp add: sound_def lowError_def)
next
  case (2 single w1)
  show ?case
  proof (cases single)
    case False with 2 show ?thesis by (auto simp: lowError_def)
  next
    case True
    with 2 have "bindO (Some (construct_new w1 (factory w1) (Handle # ps))) (\<lambda>n w2.
         bindO (setUp w2 n ps) (\<lambda>_ w3.
         Some (Inr (), w3\<lparr>initialised := True\<rparr>))) = Some (r, w')" by simp
    then show ?thesis
    proof (elim bindO_SomeE, goal_cases)
      case (1 e)
      then show ?case using sound_construct_new[of "factory w1" "Handle # ps" w1]
        by (simp add: sound_def lowError_def)
    next
      case (2 x w1 e)
      then show ?case using setUp_lowError[of w1 x ps "Inl e" w'] by (simp add: lowError_def)
    next
      case (3 x w1 xa w1a)
      then show ?case by (auto simp: lowError_def)
    qed
  qed
qed

lemma lowError_jsset: "lowError (fst (jsset w tgt k v))"
  using sound_jsset[of w tgt k v] by (simp add: sound_def)

lemma lowError_TypeError: "lowError (Inl (TypeError s))"
  by (simp add: lowError_def)

lemma mock_lowError:
  assumes fp: "factoryPrototype w = Inr p" and mem: "jsget (heap w) p methodName = Inr member"
    and tr: "truthy member" and res: "mock w methodName callback = Some (r, w')"
  shows "lowError r"
proof -
  from res fp mem tr have
    "bindO (Some (Inr (), w\<lparr>mocks := putProp (mocks w) methodName callback\<rparr>)) (\<lambda>_ w1.
                 bindO (Some (case getPrototypeOf (heap w1) (factory w1) of
                                Inl e \<Rightarrow> (Inl e, w1)
                              | Inr gp \<Rightarrow> (case jsget (heap w1) gp methodName of
                                            Inl e \<Rightarrow> (Inl e, w1)
                                          | Inr orig \<Rightarrow> (Inr orig, w1)))) (\<lambda>orig w2.
                 bindO (Some (isSingleton
                          (w2\<lparr>originalFunctions := putProp (originalFunctions w2) methodName orig\<rparr>)))
                   (\<lambda>single w3.
                 if single \<and> instances w3 = []
                 then
                   bindO (initialiseSingleton w3 []) (\<lambda>_ w4.
                   bindO (Some (case jsget (heap w4) (firstInstance w4) ''prototype'' of
                                  Inl e \<Rightarrow> (Inl e, w4)
                                | Inr ip \<Rightarrow> jsset w4 ip methodName (MockWrap callback LoaderThis)))
                     (\<lambda>_ w5. Some (Inr (), w5)))
                 else Some (Inr (), w3)))) = Some (r, w')"
    by (simp add: mock_def)
  then show ?thesis
  proof (elim bindO_SomeE, goal_cases)
    case (1 e) then show ?case by simp
  next
    case (2 x w1 e)
    then show ?case
      by (auto simp: lowError_def split: sum.splits dest!: getPrototypeOf_err jsget_err)
  next
    case (3 x w1 orig w2 e)
    then show ?case
      using sound_isSingleton[of "w2\<lparr>originalFunctions := putProp (originalFunctions w2) methodName orig\<rparr>"]
      by (simp add: sound_def lowError_def)
  next
    case (4 x w1 orig w2 single w3)
    show ?case
    proof (cases "single \<and> instances w3 = []")
      case False with 4 show ?thesis by (auto simp: lowError_def)
    next
      case True
      with 4 have "bindO (initialiseSingleton w3 []) (\<lambda>_ w4.
                   bindO (Some (case jsget (heap w4) (firstInstance w4) ''prototype'' of
                                  Inl e \<Rightarrow> (Inl e, w4)
                                | Inr ip \<Rightarrow> jsset w4 ip methodName (MockWrap callback LoaderThis)))
                     (\<lambda>_ w5. Some (Inr (), w5))) = Some (r, w')" by simp
      then show ?thesis
      proof (elim bindO_SomeE, goal_cases)
        case (1 e)
        then show ?case using initialiseSingleton_lowError[of w3 "[]" "Inl e" w']
          by (simp add: lowError_def)
      next
        case (2 y w4 e)
        have "lowError (fst (case jsget (heap w4) (firstInstance w4) ''prototype'' of
                                  Inl e \<Rightarrow> (Inl e, w4)
                                | Inr ip \<Rightarrow> jsset w4 ip methodName (MockWrap callback LoaderThis)))"
          by (auto simp: lowError_jsset lowError_TypeError split: sum.splits dest!: jsget_err)
        with 2 show ?case by (simp add: lowError_def)
      next
        case (3 y w4 z w5) then show ?case by (auto simp: lowError_def)
      qed
    qed
  qed
qed

lemma widget_prototype: "factoryPrototype widgetLoader = Inr (Ref 11)"
  by code_simp

lemma widget_count: "jsget (heap widgetLoader) (Ref 11) ''count'' = Inr (JNum 0)"
  by code_simp

lemma widget_version: "jsget (heap widgetLoader) (Ref 11) ''version'' = Inr (JStr ''1.0'')"
  by code_simp

lemma call_value:
  assumes "call w f this args = (Inr v, w')" and "\<forall>b. v \<noteq> JBool b"
  shows "\<exists>e. \<forall>w0::world. call w0 f this args = (Inr v, emit e w0)"
  using assms
  by (induction w f this args rule: call.induct) auto

lemma invoke_value:
  assumes "invoke w ob k args = (Inr v, w')" and "\<forall>b. v \<noteq> JBool b"
  shows "\<exists>e. \<forall>w0::world. heap w0 = heap w \<longrightarrow>
            invoke w0 ob k args = (Inr v, emit e (emit (EInvoke k ob args) w0))"
proof (cases "jsget (heap w) ob k")
  case (Inl e) with assms show ?thesis by (simp add: invoke_def)
next
  case (Inr f)
  with assms have "call (emit (EInvoke k ob args) w) f ob args = (Inr v, w')"
    by (simp add: invoke_def)
  from call_value[OF this assms(2)] obtain e where
    "\<forall>w0::world. call w0 f ob args = (Inr v, emit e w0)" by blast
  with Inr show ?thesis by (auto simp: invoke_def emit_def)
qed

lemma getDependencies_value:
  assumes "getDependencies w = (Inr deps, w')"
  shows "\<exists>e1 e2. \<forall>w0::world. heap w0 = heap w \<and> factory w0 = factory w \<longrightarrow>
            getDependencies w0 = (Inr deps, emit e2 (emit e1 w0))"
proof (cases "factoryPrototype w")
  case (Inl e) with assms show ?thesis by (simp add: getDependencies_def)
next
  case (Inr p)
  with assms obtain r w1 where
    i: "invoke w p ''dependencies'' [] = (Inr r, w1)"
    and c: "(case r of
                JArr xs \<Rightarrow> (case lowerAll xs of Inl e \<Rightarrow> (Inl e, w1) | Inr ds \<Rightarrow> (Inr ds, w1))
              | _ \<Rightarrow> (Inl (TypeError ''map''), w1)) = (Inr deps, w')"
    by (auto simp: getDependencies_def dest!: bindR_Inr)
  from c have nb: "\<forall>b. r \<noteq> JBool b" by (auto split: jsval.splits)
  from invoke_value[OF i nb] obtain e where
    e: "\<forall>w0::world. heap w0 = heap w \<longrightarrow>
            invoke w0 p ''dependencies'' [] = (Inr r, emit e (emit (EInvoke ''dependencies'' p []) w0))"
    by blast
  show ?thesis
  proof (intro exI allI impI)
    fix w0 :: world assume a: "heap w0 = heap w \<and> factory w0 = factory w"
    then have fp: "factoryPrototype w0 = Inr p" using Inr by (simp add: factoryPrototype_def)
    from e a have "invoke w0 p ''dependencies'' [] = (Inr r, emit e (emit (EInvoke ''dependencies'' p []) w0))"
      by simp
    with fp c show "getDependencies w0 = (Inr deps, emit e (emit (EInvoke ''dependencies'' p []) w0))"
      by (auto simp: getDependencies_def bindR_def split: jsval.splits sum.splits)
  qed
qed

lemma join_names: "d \<in> set xs \<Longrightarrow> \<exists>pre post. join xs = pre @ d @ post"
proof (induction xs rule: join.induct)
  case 1 then show ?case by simp
next
  case (2 x) then show ?case by (auto intro: exI[of _ "[]"])
next
  case (3 x y ys)
  show ?case
  proof (cases "d = x")
    case True
    then have "join (x # y # ys) = [] @ d @ ('', '' @ join (y # ys))" by simp
    then show ?thesis by blast
  next
    case False
    with 3 obtain pre post where "join (y # ys) = pre @ d @ post" by auto
    then have "join (x # y # ys) = (x @ '', '' @ pre) @ d @ post" by simp
    then show ?thesis by blast
  qed
qed

lemma hasPlugin_cong: "pluginNames w' = pluginNames w \<Longrightarrow> hasPlugin w' = hasPlugin w"
  by (auto simp: hasPlugin_def fun_eq_iff)

lemma toLowerCase_idem: "toLowerCase (toLowerCase s) = toLowerCase s"
proof -
  have "lowerChar (lowerChar c) = lowerChar c" for c
  proof (cases "(65::nat) \<le> of_char c \<and> of_char c \<le> (90::nat)")
    case True
    then have "of_char (char_of (of_char c + (32::nat))) = (of_char c + 32 :: nat)"
      by (simp add: of_char_of)
    with True show ?thesis by (simp add: lowerChar_def)
  next
    case False
    then have "lowerChar c = c" by (auto simp: lowerChar_def)
    then show ?thesis by simp
  qed
  then show ?thesis by (simp add: toLowerCase_def)
qed

lemma unmet_covers:
  "d \<in> set deps \<Longrightarrow> \<not> hasPlugin w d \<Longrightarrow> d = toLowerCase d \<Longrightarrow> d \<in> set (unmetDependencies w deps)"
  by (auto simp: unmetDependencies_def hasPlugin_def getPluginNames_def)

lemma lowerAll_lower: "lowerAll xs = Inr ds \<Longrightarrow> d \<in> set ds \<Longrightarrow> toLowerCase d = d"
  by (induction xs arbitrary: ds rule: lowerAll.induct)
     (auto simp: toLowerCase_idem split: sum.splits)

lemma getDependencies_lower:
  "getDependencies w = (Inr deps, w') \<Longrightarrow> d \<in> set deps \<Longrightarrow> toLowerCase d = d"
  by (auto simp: getDependencies_def bindR_def lowerAll_lower
           split: sum.splits prod.splits jsval.splits)

lemma lonely_deps: "fst (getDependencies lonelyWidgetLoader) = Inr [''modal'']"
  by code_simp

lemma lonely_unmet: "\<not> hasPlugin lonelyWidgetLoader ''modal''"
  by code_simp

lemma lonely_facts:
  "unmetDependencies lonelyWidgetLoader [''modal''] = [''modal'']"
  "lname lonelyWidgetLoader = ''widget''"
  "instances lonelyWidgetLoader = []"
  by code_simp+

lemma widget_registered:
  "hasPlugin widgetLoader (toLowerCase ''Widget'')" "toLowerCase ''Widget'' = ''widget''"
  "\<not> hasPlugin widgetLoader (toLowerCase ''hasTrait'')"
  by code_simp+

lemma map_of_putProp: "map_of (putProp ps k d) k' = (if k' = k then Some d else map_of ps k')"
  by (induction ps k d rule: putProp.induct) auto

lemma lookupChain_update_other:
  assumes "k' \<noteq> k" and "getObj h r = Some ob"
  shows "lookupChain (h[r := ob\<lparr>props := putProp (props ob) k d\<rparr>]) x k' = lookupChain h x k'"
proof (induction x rule: less_induct)
  case (less x)
  let ?h = "h[r := ob\<lparr>props := putProp (props ob) k d\<rparr>]"
  from assms(2) have r: "r < length h" "h ! r = ob" by (auto simp: getObj_def split: if_splits)
  show ?case
  proof (cases "x < length h")
    case False
    then show ?thesis by (simp add: lookupChain.simps[of _ x] getObj_def)
  next
    case True
    show ?thesis
    proof (cases "x = r")
      case True
      with r assms(1) less show ?thesis
        by (simp add: lookupChain.simps[of _ r] getObj_def map_of_putProp split: option.splits)
    next
      case False
      with True less show ?thesis
        by (simp add: lookupChain.simps[of _ x] getObj_def split: option.splits)
    qed
  qed
qed

lemma lookupChain_update_same:
  assumes "getObj h r = Some ob"
  shows "lookupChain (h[r := ob\<lparr>props := putProp (props ob) k d\<rparr>]) r k = Some d"
  using assms
  by (simp add: lookupChain.simps[of _ r] getObj_def map_of_putProp split: if_splits)

lemma jsset_get_other:
  assumes "k' \<noteq> k"
  shows "jsget (heap (snd (jsset w tgt k v))) y k' = jsget (heap w) y k'"
proof (cases tgt)
  case (Ref r)
  show ?thesis
  proof (cases "getObj (heap w) r")
    case None with Ref show ?thesis by (simp add: jsset_def)
  next
    case (Some ob)
    have "\<And>d x. lookupChain ((heap w)[r := ob\<lparr>props := putProp (props ob) k d\<rparr>]) x k'
             = lookupChain (heap w) x k'"
      by (rule lookupChain_update_other[OF assms Some])
    with Ref Some show ?thesis
      by (auto simp: jsset_def jsget_def findProp_def emit_def setObj_def
               split: option.splits jsval.splits)
  qed
qed (simp_all add: jsset_def)

lemma jsset_get_same:
  assumes "jsset w tgt k v = (Inr u, w')" and "tgt = Ref r"
  shows "jsget (heap w') tgt k = Inr v
       \<and> (\<exists>ob d. getObj (heap w') r = Some ob \<and> map_of (props ob) k = Some d \<and> writable d)"
proof -
  from assms obtain ob where ob: "getObj (heap w) r = Some ob"
    by (auto simp: jsset_def split: option.splits)
  then have r: "r < length (heap w)" by (auto simp: getObj_def split: if_splits)
  show ?thesis
  proof (cases "map_of (props ob) k")
    case None
    with assms ob have w': "w' = emit (ESet r k v)
                            (setObj w r (ob\<lparr>props := putProp (props ob) k (dataProp v)\<rparr>))"
      by (auto simp: jsset_def split: if_splits)
    show ?thesis using lookupChain_update_same[OF ob, of k "dataProp v"] r
      by (simp add: w' jsget_def findProp_def emit_def setObj_def assms(2) getObj_def
                    map_of_putProp dataProp_def)
  next
    case (Some d)
    with assms ob have w': "w' = emit (ESet r k v)
                            (setObj w r (ob\<lparr>props := putProp (props ob) k (d\<lparr>dvalue := v\<rparr>)\<rparr>))"
      and wd: "writable d"
      by (auto simp: jsset_def split: if_splits)
    show ?thesis using lookupChain_update_same[OF ob, of k "d\<lparr>dvalue := v\<rparr>"] r wd
      by (simp add: w' jsget_def findProp_def emit_def setObj_def assms(2) getObj_def
                    map_of_putProp)
  qed
qed

lemma jsset_own_writable:
  assumes "getObj (heap w) r = Some ob" and "map_of (props ob) k = Some d" and "writable d"
  shows "\<exists>w'. jsset w (Ref r) k v = (Inr (), w') \<and> jsget (heap w') (Ref r) k = Inr v"
proof -
  let ?w' = "emit (ESet r k v) (setObj w r (ob\<lparr>props := putProp (props ob) k (d\<lparr>dvalue := v\<rparr>)\<rparr>))"
  from assms have s: "jsset w (Ref r) k v = (Inr (), ?w')" by (simp add: jsset_def)
  from jsset_get_same[OF s refl] show ?thesis using s by blast
qed

lemma call_heap: "heap (snd (call w f this args)) = heap w"
  by (induction w f this args rule: call.induct) (auto simp: emit_def)

lemma call_success: "isl (fst (call w f this args)) = isl (fst (call w0 f this args))"
  by (induction w f this args arbitrary: w0 rule: call.induct) auto

lemma invoke_heap: "heap (snd (invoke w ob k args)) = heap w"
  using call_heap[of "emit (EInvoke k ob args) w"]
  by (auto simp: invoke_def emit_def split: sum.splits)

lemma invoke_success:
  "heap w0 = heap w \<Longrightarrow> isl (fst (invoke w ob k args)) = isl (fst (invoke w0 ob k args))"
  using call_success[of "emit (EInvoke k ob args) w" _ ob args "emit (EInvoke k ob args) w0"]
  by (auto simp: invoke_def split: sum.splits)

lemma invoke_log:
  "\<exists>evs. log (snd (invoke w ob k args)) = log w @ evs
     \<and> (isl (fst (invoke w ob k args)) \<or> (\<exists>evs'. evs = EInvoke k ob args # evs' \<and> list_all callEv evs'))"
proof (cases "jsget (heap w) ob k")
  case (Inl e) then show ?thesis by (simp add: invoke_def)
next
  case (Inr f)
  from sound_call[of "emit (EInvoke k ob args) w" f ob args]
  obtain evs where "log (snd (call (emit (EInvoke k ob args) w) f ob args))
      = log (emit (EInvoke k ob args) w) @ evs" "list_all callEv evs"
    by (auto simp: sound_def frame_def)
  with Inr show ?thesis by (auto simp: invoke_def emit_def)
qed

lemma invoke_success_get:
  "jsget (heap w0) ob k = jsget (heap w) ob k
   \<Longrightarrow> isl (fst (invoke w ob k args)) = isl (fst (invoke w0 ob k args))"
  using call_success[of "emit (EInvoke k ob args) w" _ ob args "emit (EInvoke k ob args) w0"]
  by (auto simp: invoke_def split: sum.splits)

lemma invoke_Inr_Ref: "invoke w ob k args = (Inr x, w') \<Longrightarrow> \<exists>r. ob = Ref r"
  by (cases ob) (auto simp: invoke_def jsget_def split: sum.splits)

lemma destructed_kept:
  assumes "jsget (heap w0) this ''destructed'' = Inr (JBool True)"
  shows "jsget (heap (snd (destructor w0 this))) this ''destructed'' = Inr (JBool True)"
proof -
  obtain a wa where a: "invoke w0 this ''destruct'' [] = (a, wa)" by (cases "invoke w0 this ''destruct'' []")
  then have ha: "heap wa = heap w0" using invoke_heap[of w0 this "''destruct''" "[]"] by simp
  obtain b wb where b: "invoke wa this ''detach'' [] = (b, wb)" by (cases "invoke wa this ''detach'' []")
  then have hb: "heap wb = heap w0" using invoke_heap[of wa this "''detach''" "[]"] ha by simp
  obtain c wc where c: "jsset wb this ''destructed'' (JBool True) = (c, wc)"
    by (cases "jsset wb this ''destructed'' (JBool True)")
  have hc: "jsget (heap wc) this ''destructed'' = Inr (JBool True)"
  proof (cases c)
    case (Inl e)
    with c have "wc = wb" by (auto simp: jsset_def split: jsval.splits option.splits if_splits)
    with hb assms show ?thesis by simp
  next
    case (Inr u)
    show ?thesis
    proof (cases this)
      case (Ref r)
      from jsset_get_same[OF c[unfolded Inr] Ref] show ?thesis by simp
    qed (use c hb assms in \<open>auto simp: jsset_def\<close>)
  qed
  show ?thesis using a b c ha hb hc assms
    by (cases a; cases b) (auto simp: destructor_def bindR_def)
qed

lemma widgetLive_destructor: "fst (destructor widgetLive (Ref 15)) = Inr ()"
  by code_simp

lemma widgetLive_instances:
  "instances widgetLive = [15]" "instances (snd (destructor widgetLive (Ref 15))) = []"
  by code_simp+

lemma cycles_frame:
  assumes "frame Q w w'" and "\<And>e. Q e \<Longrightarrow> \<not> lifecycle e"
  shows "cycles (log w') = cycles (log w)"
proof -
  from assms(1) obtain evs where e: "log w' = log w @ evs" "list_all Q evs"
    by (auto simp: frame_def)
  with assms(2) have "filter lifecycle evs = []" by (auto simp: list_all_iff filter_empty_conv)
  with e show ?thesis by (simp add: cycles_def)
qed

lemma quiet_events:
  "setEv e \<Longrightarrow> \<not> lifecycle e" "callEv e \<Longrightarrow> \<not> lifecycle e" "traitEv e \<Longrightarrow> \<not> lifecycle e"
  "invokeEv ''isSingleton'' e \<Longrightarrow> \<not> lifecycle e" "invokeEv ''dependencies'' e \<Longrightarrow> \<not> lifecycle e"
  by (auto simp: setEv_def callEv_def traitEv_def invokeEv_def lifecycle_def split: event.splits)

lemma isSingleton_Fn:
  assumes "factoryPrototype w = Inr p" and "jsget (heap w) p ''isSingleton'' = Inr (Fn l (JBool b))"
  shows "isSingleton w = (Inr b, emit (ECall l p []) (emit (EInvoke ''isSingleton'' p []) w))"
  using assms by (simp add: isSingleton_def invoke_def bindR_def)

lemma dependenciesFulfilled_world:
  assumes "dependenciesFulfilled w = (Inr ok, w1)"
  shows "\<exists>e1 e2. w1 = emit e2 (emit e1 w)"
proof -
  from assms obtain deps where g: "getDependencies w = (Inr deps, w1)"
    by (auto simp: dependenciesFulfilled_def dest!: bindR_Inr)
  from getDependencies_value[OF g] obtain e1 e2 where
    "getDependencies w = (Inr deps, emit e2 (emit e1 w))" by blast
  with g show ?thesis by auto
qed

lemma jsset_heap_length: "length (heap (snd (jsset w tgt k v))) = length (heap w)"
  by (auto simp: jsset_def emit_def setObj_def split: jsval.splits option.splits)

lemma writeAll_keeps:
  "instances (snd (writeAll w inst kvs)) = instances w
   \<and> length (heap (snd (writeAll w inst kvs))) = length (heap w)"
proof (induction w inst kvs rule: writeAll.induct)
  case (1 w inst) show ?case by simp
next
  case (2 w inst k v kvs)
  show ?case
  proof (cases "jsget (heap w) inst ''prototype''")
    case (Inl e) then show ?thesis by simp
  next
    case (Inr p)
    obtain r w1 where j: "jsset w p k v = (r, w1)" by (cases "jsset w p k v")
    have k1: "instances w1 = instances w" "length (heap w1) = length (heap w)"
      using jsset_instances[of w p k v] jsset_heap_length[of w p k v] j by simp_all
    show ?thesis
    proof (cases r)
      case (Inl e) with Inr j k1 show ?thesis by (simp add: bindR_def)
    next
      case r: (Inr u)
      from 2[OF Inr, of w1] k1 Inr j r show ?thesis by (simp add: bindR_def)
    qed
  qed
qed

lemma applyMocks_keeps:
  assumes "applyMocks w inst = (r, w')"
  shows "instances w' = instances w \<and> length (heap w') = length (heap w)
       \<and> cycles (log w') = cycles (log w)"
proof -
  have c: "cycles (log w') = cycles (log w)"
  proof (rule cycles_frame[where Q = setEv])
    show "frame setEv w w'" using sound_applyMocks[of w inst] assms by (simp add: sound_def)
  qed (rule quiet_events)
  have "instances w' = instances w \<and> length (heap w') = length (heap w)"
  proof (cases "mocks w \<noteq> []")
    case False with assms show ?thesis by (simp add: applyMocks_def)
  next
    case True
    obtain r1 w1 where a: "writeAll w inst (originalFunctions w) = (r1, w1)"
      by (cases "writeAll w inst (originalFunctions w)")
    have k1: "instances w1 = instances w" "length (heap w1) = length (heap w)"
      using writeAll_keeps[of w inst "originalFunctions w"] a by simp_all
    show ?thesis
    proof (cases r1)
      case (Inl e) with True a assms k1 show ?thesis by (auto simp: applyMocks_def bindR_def)
    next
      case (Inr u)
      with True a assms have "writeAll w1 inst (map (\<lambda>(k, cb). (k, MockWrap cb inst)) (mocks w1)) = (r, w')"
        by (simp add: applyMocks_def bindR_def)
      with writeAll_keeps[of w1 inst "map (\<lambda>(k, cb). (k, MockWrap cb inst)) (mocks w1)"] k1
      show ?thesis by simp
    qed
  qed
  with c show ?thesis by simp
qed

lemma setUp_steps:
  assumes "setUp w n ps = Some (Inr u, w')"
  shows "\<exists>w1 a w2 w3 b w4.
           jsset w (Ref n) ''detach'' (DetachFn n) = (Inr (), w1)
         \<and> invoke w1 (Ref n) ''construct'' ps = (Inr a, w2)
         \<and> loadTraits w2 (Ref n) = Some (Inr (), w3)
         \<and> invoke w3 (Ref n) ''init'' [] = (Inr b, w4)
         \<and> w' = emit (EAdd n) (w4\<lparr>instances := setAdd (instances w4) n\<rparr>)"
  using assms unfolding setUp_def by (auto dest!: bindO_Inr)

lemma invoke_cycles:
  assumes "invoke w ob k args = (Inr a, w')"
  shows "cycles (log w') = cycles (log w) @ (if k = ''construct'' \<or> k = ''init'' then [EInvoke k ob args] else [])"
proof -
  from invoke_log[of w ob k args] assms obtain evs' where
    l: "log w' = log w @ EInvoke k ob args # evs'" "list_all callEv evs'" by auto
  then have "filter lifecycle evs' = []"
    by (auto simp: list_all_iff filter_empty_conv dest: quiet_events(2))
  with l show ?thesis by (simp add: cycles_def lifecycle_def)
qed

lemma frame_instances_empty: "frame Q w w' \<Longrightarrow> instances w = [] \<Longrightarrow> instances w' = []"
  by (auto simp: frame_def)

lemma setUp_cycle:
  assumes "setUp w n ps = Some (Inr u, w')" and "instances w = []"
  shows "instances w' = [n]
       \<and> cycles (log w') = cycles (log w) @ [EInvoke ''construct'' (Ref n) ps, EInvoke ''init'' (Ref n) []]
       \<and> mocks w' = mocks w \<and> originalFunctions w' = originalFunctions w"
proof -
  from setUp_steps[OF assms(1)] obtain w1 a w2 w3 b w4 where
    s1: "jsset w (Ref n) ''detach'' (DetachFn n) = (Inr (), w1)" and
    s2: "invoke w1 (Ref n) ''construct'' ps = (Inr a, w2)" and
    s3: "loadTraits w2 (Ref n) = Some (Inr (), w3)" and
    s4: "invoke w3 (Ref n) ''init'' [] = (Inr b, w4)" and
    s5: "w' = emit (EAdd n) (w4\<lparr>instances := setAdd (instances w4) n\<rparr>)" by blast
  have f1: "frame setEv w w1" using sound_jsset[of w "Ref n" "''detach''" "DetachFn n"] s1
    by (simp add: sound_def)
  have f2: "frame (invokeEv ''construct'') w1 w2" using sound_invoke[of "''construct''" w1 "Ref n" ps] s2
    by (simp add: sound_def)
  have f3: "frame traitEv w2 w3" using sound_loadTraits[OF s3] by (simp add: sound_def)
  have f4: "frame (invokeEv ''init'') w3 w4" using sound_invoke[of "''init''" w3 "Ref n" "[]"] s4
    by (simp add: sound_def)
  have i4: "instances w4 = []"
    using frame_instances_empty[OF f4 frame_instances_empty[OF f3 frame_instances_empty[OF f2
          frame_instances_empty[OF f1 assms(2)]]]] .
  have c1: "cycles (log w1) = cycles (log w)" by (rule cycles_frame[OF f1]) (rule quiet_events)
  have c2: "cycles (log w2) = cycles (log w1) @ [EInvoke ''construct'' (Ref n) ps]"
    using invoke_cycles[OF s2] by simp
  have c3: "cycles (log w3) = cycles (log w2)" by (rule cycles_frame[OF f3]) (rule quiet_events)
  have c4: "cycles (log w4) = cycles (log w3) @ [EInvoke ''init'' (Ref n) []]"
    using invoke_cycles[OF s4] by simp
  have m: "mocks w4 = mocks w \<and> originalFunctions w4 = originalFunctions w"
    using f1 f2 f3 f4 by (simp add: frame_def)
  show ?thesis using s5 i4 c1 c2 c3 c4 m
    by (simp add: emit_def setAdd_def cycles_def lifecycle_def)
qed

lemma getInstance_fulfilled:
  assumes "getInstance w ps = Some (Inr v, w')"
  shows "\<exists>w1. dependenciesFulfilled w = (Inr True, w1)
       \<and> bindO (Some (isSingleton w1)) (\<lambda>single w2.
           if single
           then
             bindO (if instances w2 = [] then initialiseSingleton w2 ps
                    else Some (Inr (), w2)) (\<lambda>_ w3.
             bindO (Some (applyMocks w3 (firstInstance w3))) (\<lambda>_ w4.
             Some (Inr (firstInstance w3), w4)))
           else
             bindO (Some (construct_new w2 (factory w2) (Handle # ps))) (\<lambda>n w3.
             bindO (Some (applyMocks w3 (Ref n))) (\<lambda>_ w4.
             bindO (setUp w4 n ps) (\<lambda>_ w5.
             Some (Inr (Ref n), w5))))) = Some (Inr v, w')"
proof -
  from assms[unfolded getInstance_def] obtain ok w1 where
    d: "dependenciesFulfilled w = (Inr ok, w1)" and
    r: "(if \<not> ok
       then bindO (Some (getDependencies w1)) (\<lambda>deps w2.
              Some (Inl (MissingDependency (missingMessage (lname w2) (unmetDependencies w2 deps))), w2))
       else
         bindO (Some (isSingleton w1)) (\<lambda>single w2.
           if single
           then
             bindO (if instances w2 = [] then initialiseSingleton w2 ps
                    else Some (Inr (), w2)) (\<lambda>_ w3.
             bindO (Some (applyMocks w3 (firstInstance w3))) (\<lambda>_ w4.
             Some (Inr (firstInstance w3), w4)))
           else
             bindO (Some (construct_new w2 (factory w2) (Handle # ps))) (\<lambda>n w3.
             bindO (Some (applyMocks w3 (Ref n))) (\<lambda>_ w4.
             bindO (setUp w4 n ps) (\<lambda>_ w5.
             Some (Inr (Ref n), w5)))))) = Some (Inr v, w')"
    by (blast dest: bindO_Inr)
  have ok
  proof (rule ccontr)
    assume "\<not> ok"
    with r show False by (auto dest!: bindO_Inr)
  qed
  with d r show ?thesis by auto
qed

lemma construct_new_facts:
  assumes "construct_new w c args = (Inr n, w')"
  shows "n = length (heap w) \<and> instances w' = instances w \<and> log w' = log w @ [ENew c args n]
       \<and> mocks w' = mocks w \<and> originalFunctions w' = originalFunctions w
       \<and> factory w' = factory w \<and> length (heap w') = Suc (length (heap w))"
  using assms
  by (auto simp: construct_new_def emit_def split: jsval.splits option.splits)

lemma single_facts:
  "factoryPrototype singleLoader = Inr (Ref 13)"
  "jsget (heap singleLoader) (Ref 13) ''isSingleton'' = Inr (Fn ''Single.isSingleton'' (JBool True))"
  "instances singleLoader = []" "log singleLoader = []" "factory singleLoader = Ref 14"
  by code_simp+

lemma single_first: "getInstance singleLoader [JNum 7] = Some (Inr (Ref 15), singleLive)"
  by code_simp

lemma singleLive_facts:
  "factoryPrototype singleLive = Inr (Ref 13)"
  "jsget (heap singleLive) (Ref 13) ''isSingleton'' = Inr (Fn ''Single.isSingleton'' (JBool True))"
  "map_option fst (getInstance singleLive [JNum 8]) = Some (Inr (Ref 15))"
  by code_simp+

lemma applyTrait_missing:
  "\<not> hasTrait w0 t \<Longrightarrow> applyTrait w0 inst t = (Inr (), warning w0 (traitWarning w0 t))"
  unfolding applyTrait_def by (simp only: if_True simp_thms)

lemma applyTraits_missing_head:
  assumes "\<not> hasTrait w t"
  shows "applyTraits w inst (t # ts) = applyTraits (warning w (traitWarning w t)) inst ts"
  by (simp only: applyTraits.simps applyTrait_missing[OF assms] bindR_def prod.case sum.case)

lemma applyTraits_append:
  "applyTraits w inst (xs @ ys) = bindR (applyTraits w inst xs) (\<lambda>_ w1. applyTraits w1 inst ys)"
proof (induction xs arbitrary: w)
  case Nil show ?case by (simp add: bindR_def)
next
  case (Cons x xs)
  obtain r w1 where a: "applyTrait w inst x = (r, w1)" by (cases "applyTrait w inst x")
  show ?case
  proof (cases r)
    case (Inl e) with a show ?thesis by (simp add: bindR_def)
  next
    case (Inr u)
    with a have "applyTraits w inst ((x # xs) @ ys) = applyTraits w1 inst (xs @ ys)"
      by (simp add: bindR_def)
    also have "\<dots> = bindR (applyTraits w1 inst xs) (\<lambda>_ w1. applyTraits w1 inst ys)"
      by (rule Cons)
    also have "\<dots> = bindR (applyTraits w inst (x # xs)) (\<lambda>_ w1. applyTraits w1 inst ys)"
      using a Inr by (simp add: bindR_def)
    finally show ?thesis .
  qed
qed

lemma hasTrait_cong: "traitTable w' = traitTable w \<Longrightarrow> hasTrait w' t = hasTrait w t"
  by (cases t) (simp_all add: hasTrait_def getTrait_def)

lemma applyTraits_missing_middle:
  assumes "\<not> hasTrait w t"
  shows "bindR (applyTraits w inst ts1) (\<lambda>_ w1. applyTraits w1 inst (t # ts2))
      = bindR (applyTraits w inst ts1) (\<lambda>_ w1. applyTraits (warning w1 (traitWarning w1 t)) inst ts2)"
proof -
  obtain r w1 where p: "applyTraits w inst ts1 = (r, w1)" by (cases "applyTraits w inst ts1")
  show ?thesis
  proof (cases r)
    case (Inl e) with p show ?thesis by (simp only: bindR_def prod.case sum.case)
  next
    case (Inr u)
    have "frame traitEv w w1" using sound_applyTraits[of w inst ts1] p by (simp add: sound_def)
    then have "traitTable w1 = traitTable w" by (simp add: frame_def)
    with assms have "\<not> hasTrait w1 t" using hasTrait_cong[of w1 w t] by simp
    from applyTraits_missing_head[OF this] p Inr show ?thesis
      by (simp only: bindR_def prod.case sum.case)
  qed
qed

lemma partial_facts:
  "\<not> hasTrait partialWidgetNew (JStr ''a'')"
  "fst (applyTraits (warning partialWidgetNew (traitWarning partialWidgetNew (JStr ''a'')))
          (Ref 15) [JStr ''b'']) = Inr ()"
  "jsget (heap (snd (applyTraits (warning partialWidgetNew (traitWarning partialWidgetNew (JStr ''a'')))
          (Ref 15) [JStr ''b'']))) (Ref 15) ''bar'' = Inr (JStr ''B'')"
  by code_simp+

lemma agree_refl: "agree k h h"
  by (simp add: agree_def)

lemma agree_trans: "agree k h h1 \<Longrightarrow> agree k h1 h2 \<Longrightarrow> agree k h h2"
  by (auto simp: agree_def)

lemma agree_lookup:
  assumes "agree k h h'" and "x < length h"
  shows "lookupChain h' x k = lookupChain h x k"
  using assms(2)
proof (induction x rule: less_induct)
  case (less x)
  from assms(1) less(2) have x': "x < length h'" and
    p: "proto (h' ! x) = proto (h ! x)" and m: "map_of (props (h' ! x)) k = map_of (props (h ! x)) k"
    by (auto simp: agree_def)
  show ?case
  proof (cases "map_of (props (h ! x)) k")
    case (Some d)
    with less(2) x' m show ?thesis by (simp add: lookupChain.simps[of _ x] getObj_def)
  next
    case None
    show ?thesis
    proof (cases "proto (h ! x)")
      case pn: None
      with None less(2) x' m p show ?thesis by (simp add: lookupChain.simps[of _ x] getObj_def)
    next
      case (Some q)
      show ?thesis
      proof (cases "q < x")
        case True
        with less(2) have "q < length h" by simp
        from less(1)[OF True this] None Some less(2) x' m p True show ?thesis
          by (simp add: lookupChain.simps[of _ x] getObj_def)
      next
        case False
        with None Some less(2) x' m p show ?thesis
          by (simp add: lookupChain.simps[of _ x] getObj_def)
      qed
    qed
  qed
qed

lemma agree_append: "agree k h (h @ xs)"
  by (simp add: agree_def nth_append)

lemma agree_update:
  assumes "k' \<noteq> k" and "getObj h r = Some ob"
  shows "agree k h (h[r := ob\<lparr>props := putProp (props ob) k' d\<rparr>])"
  using assms
  by (auto simp: agree_def getObj_def nth_list_update map_of_putProp split: if_splits)

lemma agree_own:
  "agree k h h' \<Longrightarrow> n < length h
   \<Longrightarrow> getOwnPropertyDescriptor h' n k = getOwnPropertyDescriptor h n k"
  by (auto simp: agree_def getOwnPropertyDescriptor_def getObj_def)

lemma agree_getPrototypeOf:
  "agree k h h' \<Longrightarrow> n < length h \<Longrightarrow> getPrototypeOf h' (Ref n) = getPrototypeOf h (Ref n)"
  by (auto simp: agree_def getPrototypeOf_def getObj_def)

lemma agree_jsget:
  "agree k h h' \<Longrightarrow> p < length h \<Longrightarrow> jsget h' (Ref p) k = jsget h (Ref p) k"
  by (simp add: jsget_def findProp_def agree_lookup)

lemma defineAll_agree:
  assumes "k \<notin> fst ` set ds"
  shows "agree k (heap w) (heap (snd (defineAll w r ds)))"
  using assms
proof (induction w r ds rule: defineAll.induct)
  case (1 w r) show ?case by (simp add: agree_refl)
next
  case (2 w r k' d ds)
  show ?case
  proof (cases "getObj (heap w) r")
    case None then show ?thesis by (simp add: agree_refl)
  next
    case (Some ob)
    show ?thesis
    proof (cases "admits (map_of (props ob) k') (extensible ob) d")
      case False with Some show ?thesis by (simp add: agree_refl)
    next
      case True
      let ?w1 = "emit (EDefine r k' d) (setObj w r (ob\<lparr>props := putProp (props ob) k' d\<rparr>))"
      from 2(2) have ne: "k' \<noteq> k" and rest: "k \<notin> fst ` set ds" by auto
      have a: "agree k (heap w) (heap ?w1)"
        using agree_update[OF ne Some] by (simp add: emit_def setObj_def)
      from 2(1)[OF Some True rest] have "agree k (heap ?w1) (heap (snd (defineAll ?w1 r ds)))" .
      with a Some True show ?thesis by (auto intro: agree_trans)
    qed
  qed
qed

lemma allDescs_keys: "allDescs nds = Some ds \<Longrightarrow> map fst ds = map fst nds"
  by (induction nds arbitrary: ds rule: allDescs.induct) auto

lemma defineProperties_agree:
  assumes "k \<notin> fst ` set nds"
  shows "agree k (heap w) (heap (snd (defineProperties w tgt nds)))"
proof (cases tgt)
  case (Ref r)
  show ?thesis
  proof (cases "allDescs nds")
    case None with Ref show ?thesis by (simp add: defineProperties_def agree_refl)
  next
    case (Some ds)
    from allDescs_keys[OF Some] have "set (map fst ds) = set (map fst nds)" by simp
    with assms have "k \<notin> fst ` set ds" by simp
    from defineAll_agree[OF this] Ref Some show ?thesis by (simp add: defineProperties_def)
  qed
qed (simp_all add: defineProperties_def agree_refl)

lemma filterNew_keys:
  assumes "filterNew h inst ds = Inr nds" and "getPrototypeOf h inst = Inr gp"
    and "k \<in> fst ` set nds"
  shows "jsget h gp k = Inr Undefined"
  using assms
proof (induction h inst ds arbitrary: nds rule: filterNew.induct)
  case (1 h inst) then show ?case by simp
next
  case (2 h inst k' d ds)
  from 2(2,3) obtain v r where
    v: "jsget h gp k' = Inr v" and r: "filterNew h inst ds = Inr r" and
    n: "nds = (if v = Undefined then (k', d) # r else r)"
    by (auto split: sum.splits)
  show ?case
  proof (cases "k \<in> fst ` set r")
    case True
    from 2(1)[OF 2(3) v r 2(3) True] show ?thesis .
  next
    case False
    with n 2(4) have "v = Undefined" "k = k'" by (auto split: if_splits)
    with v show ?thesis by simp
  qed
qed

lemma jsget_defined_Ref:
  assumes "jsget h gp k = Inr v" and "v \<noteq> Undefined"
  shows "\<exists>p. gp = Ref p \<and> p < length h"
proof (cases gp)
  case (Ref p)
  with assms have "lookupChain h p k \<noteq> None"
    by (auto simp: jsget_def findProp_def split: option.splits)
  then have "p < length h"
    by (auto simp: lookupChain.simps[of h p k] getObj_def split: if_splits)
  with Ref show ?thesis by simp
qed (use assms in \<open>auto simp: jsget_def\<close>)

lemma call_heap_eq: "call w f this args = (r, w') \<Longrightarrow> heap w' = heap w"
  using call_heap[of w f this args] by simp

lemma applyTrait_agree:
  assumes n: "n < length (heap w)" and gp: "getPrototypeOf (heap w) (Ref n) = Inr gp"
    and k: "jsget (heap w) gp k = Inr v" "v \<noteq> Undefined"
  shows "agree k (heap w) (heap (snd (applyTrait w (Ref n) t)))"
proof (cases "hasTrait w t")
  case False
  then show ?thesis by (simp add: applyTrait_missing warning_def emit_def agree_refl)
next
  case True
  then obtain TI where g: "getTrait w t = Some TI" by (auto simp: hasTrait_def)
  from jsget_defined_Ref[OF k] obtain p where p: "gp = Ref p" "p < length (heap w)" by blast
  obtain r1 w1 where cn: "construct_new w TI [] = (r1, w1)" by (cases "construct_new w TI []")
  have a1: "agree k (heap w) (heap w1)"
    using cn by (auto simp: construct_new_def emit_def agree_refl agree_append
                      split: jsval.splits option.splits)
  show ?thesis
  proof (cases r1)
    case (Inl e)
    with True g cn a1 show ?thesis by (simp add: applyTrait_def bindR_def)
  next
    case (Inr ti)
    have gp1: "getPrototypeOf (heap w1) (Ref n) = Inr (Ref p)"
      using agree_getPrototypeOf[OF a1 n] gp p by simp
    have k1: "jsget (heap w1) (Ref p) k = Inr v"
      using agree_jsget[OF a1 p(2)] k p by simp
    show ?thesis
    proof (cases TI)
      case (Ref c)
      show ?thesis
      proof (cases "getPrototypeOf (heap w1) TI")
        case (Inl e)
        with True g cn Inr Ref a1 show ?thesis by (simp add: applyTrait_def bindR_def)
      next
        case tgp: (Inr tgp)
        show ?thesis
        proof (cases "methodDescriptors (heap w1) tgp (getOwnPropertyNames (heap w1) c)
                                (fieldDescriptors (heap w1) ti)")
          case (Inl e)
          with True g cn Inr Ref tgp a1 show ?thesis by (simp add: applyTrait_def bindR_def)
        next
          case ds: (Inr ds)
          show ?thesis
          proof (cases "filterNew (heap w1) (Ref n) ds")
            case (Inl e)
            with True g cn Inr Ref tgp ds a1 show ?thesis by (simp add: applyTrait_def bindR_def)
          next
            case nds: (Inr nds)
            have nk: "k \<notin> fst ` set nds"
            proof
              assume "k \<in> fst ` set nds"
              from filterNew_keys[OF nds gp1 this] k1 k(2) show False by simp
            qed
            obtain r2 w2 where dp: "defineProperties w1 (Ref n) nds = (r2, w2)"
              by (cases "defineProperties w1 (Ref n) nds")
            have a2: "agree k (heap w1) (heap w2)"
              using defineProperties_agree[OF nk, of w1 "Ref n"] dp by simp
            have a12: "agree k (heap w) (heap w2)" by (rule agree_trans[OF a1 a2])
            have rest: "heap (snd (case jsget (heap w2) (Ref ti) ''construct'' of
                                         Inl e \<Rightarrow> (Inl e, w2)
                                       | Inr f \<Rightarrow>
                                           if truthy f
                                           then bindR (call w2 f (Ref n) []) (\<lambda>_ w3. (Inr (), w3))
                                           else (Inr (), w2))) = heap w2"
              by (auto simp: bindR_def split: sum.splits prod.splits dest: call_heap_eq)
            show ?thesis
            proof (cases r2)
              case (Inl e)
              with True g cn Inr Ref tgp ds nds dp a12 show ?thesis
                by (simp add: applyTrait_def bindR_def)
            next
              case r2: (Inr u)
              with True g cn Inr Ref tgp ds nds dp a12 rest show ?thesis
                by (simp add: applyTrait_def bindR_def)
            qed
          qed
        qed
      qed
    qed (use True g cn Inr a1 in \<open>simp_all add: applyTrait_def bindR_def\<close>)
  qed
qed

lemma applyTraits_agree:
  assumes "n < length (heap w)" and "getPrototypeOf (heap w) (Ref n) = Inr gp"
    and "jsget (heap w) gp k = Inr v" and "v \<noteq> Undefined"
  shows "agree k (heap w) (heap (snd (applyTraits w (Ref n) ts)))"
  using assms
proof (induction ts arbitrary: w)
  case Nil show ?case by (simp add: agree_refl)
next
  case (Cons t ts)
  obtain r w1 where a: "applyTrait w (Ref n) t = (r, w1)" by (cases "applyTrait w (Ref n) t")
  from applyTrait_agree[OF Cons(2-5), of t] a have ag: "agree k (heap w) (heap w1)" by simp
  show ?case
  proof (cases r)
    case (Inl e) with a ag show ?thesis by (simp add: bindR_def)
  next
    case (Inr u)
    from jsget_defined_Ref[OF Cons(4,5)] obtain p where p: "gp = Ref p" "p < length (heap w)"
      by blast
    from ag Cons(2) have n1: "n < length (heap w1)" by (simp add: agree_def)
    have g1: "getPrototypeOf (heap w1) (Ref n) = Inr gp"
      using agree_getPrototypeOf[OF ag Cons(2)] Cons(3) by simp
    have k1: "jsget (heap w1) gp k = Inr v"
      using agree_jsget[OF ag p(2)] Cons(4) p by simp
    from Cons(1)[OF n1 g1 k1 Cons(5)]
    have "agree k (heap w1) (heap (snd (applyTraits w1 (Ref n) ts)))" .
    with ag a Inr show ?thesis by (auto simp: bindR_def intro: agree_trans)
  qed
qed

lemma currentTraitsOf_heap: "heap (snd (currentTraitsOf w cur)) = heap w"
  using invoke_heap[of w cur "''traits''" "[]"]
  by (auto simp: currentTraitsOf_def bindR_def split: sum.splits prod.splits jsval.splits)

lemma collectTraits_heap:
  "collectTraits w cur traits = Some m \<Longrightarrow> heap (snd m) = heap w"
proof (induction rule: collectTraits.raw_induct[rotated 1, consumes 1, case_names step])
  case (step f w cur traits m)
  obtain r w1 where ct: "currentTraitsOf w cur = (r, w1)" by (cases "currentTraitsOf w cur")
  then have h1: "heap w1 = heap w" using currentTraitsOf_heap[of w cur] by simp
  from step(2) ct h1 step(1) show ?case
    by (auto simp: currentTraitsOf_heap split: sum.splits if_splits)
qed

lemma methodDescriptors_reserved:
  "methodDescriptors h tgp ns acc = Inr ds \<Longrightarrow> k \<in> set reservedNames
   \<Longrightarrow> map_of ds k = map_of acc k"
proof (induction h tgp ns acc rule: methodDescriptors.induct)
  case (1 h gp acc) then show ?case by simp
next
  case (2 h gp n ns acc)
  show ?case
  proof (cases "n \<in> set reservedNames")
    case True with 2 show ?thesis by simp
  next
    case False
    with 2(3,4) obtain p where p: "gp = Ref p"
      and r: "methodDescriptors h gp ns (putProp acc n (getOwnPropertyDescriptor h p n)) = Inr ds"
      by (auto split: jsval.splits)
    from False 2(4) have "k \<noteq> n" by auto
    with 2(2)[OF _ p] False r 2(4) p show ?thesis by (simp add: map_of_putProp)
  qed
qed

lemma gadget_facts:
  "getPrototypeOf (heap gadgetNew) (Ref 19) = Inr (Ref 17)"
  "map (\<lambda>k. jsget (heap gadgetNew) (Ref 17) k) reservedNames
     = [Inr (Ref 18), Inr (Fn ''PluginBase.construct'' Undefined),
        Inr (Fn ''PluginBase.init'' Undefined), Inr (Fn ''PluginBase.getSnowboard'' Handle),
        Inr (Fn ''PluginBase.destruct'' Undefined), Inr (Fn ''PluginBase.destructor'' Undefined),
        Inr (Fn ''PluginBase.detach'' Undefined)]"
  "map_option fst (loadTraits gadgetNew (Ref 19)) = Some (Inr ())"
  "map (getOwnPropertyDescriptor (heap gadgetNew) 19) reservedNames
     = [None, None, None, None, None, None, None]"
  by code_simp+

lemma widget_mock_steps:
  "mock widgetLoader ''m'' mockF = Some (Inr (), widgetMocked)"
  "jsget (heap widgetLoader) (Ref 11) ''m'' = Inr (Fn ''Widget.m'' (JStr ''original''))"
  "originalFunctions widgetMocked = [(''m'', Undefined)]"
  "getInstance widgetMocked [] = Some (Inr (Ref 15), widgetMockedLive)"
  by code_simp+

lemma widget_mock_call:
  "invoke widgetMockedLive (Ref 15) ''m'' [JNum 1]
     = (Inr (JStr ''mocked''),
        emit (ECall ''f'' Undefined [Ref 15, JNum 1])
          (emit (EInvoke ''m'' (Ref 15) [JNum 1]) widgetMockedLive))"
  by code_simp

lemma widget_unmock_steps:
  "unmock widgetMockedLive ''m'' = (Inr (), widgetUnmocked)"
  "mocks widgetUnmocked = []"
  "getInstance widgetUnmocked [] = Some (Inr (Ref 18), widgetUnmockedLive)"
  by code_simp+

lemma widget_unmock_call:
  "invoke widgetUnmockedLive (Ref 18) ''m'' [JNum 1]
     = (Inr (JStr ''mocked''),
        emit (ECall ''f'' Undefined [Ref 15, JNum 1])
          (emit (EInvoke ''m'' (Ref 18) [JNum 1]) widgetUnmockedLive))"
  by code_simp

lemma single_mock_steps:
  "mock singleLoader ''m'' mockF = Some (Inr (), singleMocked)"
  "jsget (heap singleLoader) (Ref 13) ''m'' = Inr (Fn ''Single.m'' (JStr ''original''))"
  "getInstance singleMocked [] = Some (Inr (Ref 15), singleMockedLive)"
  "fst (invoke singleMockedLive (Ref 15) ''m'' [JNum 1]) = Inr (JStr ''mocked'')"
  by code_simp+

lemma single_unmock_steps:
  "unmock singleMockedLive ''m'' = (Inr (), singleUnmocked)"
  "getInstance singleUnmocked [] = Some (Inr (Ref 15), singleUnmockedLive)"
  "fst (invoke singleUnmockedLive (Ref 15) ''m'' [JNum 1]) = Inl (TypeError ''call'')"
  by code_simp+

lemma widgetMocked_facts:
  "factoryPrototype widgetMocked = Inr (Ref 11)"
  "jsget (heap widgetMocked) (Ref 11) ''isSingleton''
     = Inr (Fn ''PluginBase.isSingleton'' (JBool False))"
  by code_simp+

lemma claimed_steps:
  "getInstanceClaimed widgetMocked [] = Some (Inr (Ref 15), widgetMockedClaimed)"
  "filter (stepEv 15) (log widgetMockedLive)
     = [ENew (Ref 12) [Handle] 15,
        ESet 11 ''m'' (MockWrap (Fn ''f'' (JStr ''mocked'')) (Ref 15)),
        ESet 15 ''detach'' (DetachFn 15), EInvoke ''construct'' (Ref 15) [],
        EInvoke ''init'' (Ref 15) [], EAdd 15]"
  "filter (stepEv 15) (log widgetMockedClaimed)
     = [ENew (Ref 12) [Handle] 15, ESet 15 ''detach'' (DetachFn 15),
        EInvoke ''construct'' (Ref 15) [], EInvoke ''init'' (Ref 15) [], EAdd 15,
        ESet 11 ''m'' (MockWrap (Fn ''f'' (JStr ''mocked'')) (Ref 15))]"
  by code_simp+

text \<open>
  On a plugin that extends \<^verbatim>\<open>PluginBase\<close> and adds no \<^verbatim>\<open>prototype\<close> member, the loop of
  \<^verbatim>\<open>loadTraits\<close> reads \<^verbatim>\<open>instance.prototype\<close>, which is \<^verbatim>\<open>undefined\<close>, and its next test
  throws: \<^verbatim>\<open>getInstance\<close> fails after the construct hook, and no instance becomes live.
\<close>

lemma plain_plugin_walk_throws:
  "map_option fst (getInstance plainWidgetLoader []) = Some (Inl (TypeError ''constructor''))"
  "map_option (instances \<circ> snd) (getInstance plainWidgetLoader []) = Some []"
  "map_option (cycles \<circ> log \<circ> snd) (getInstance plainWidgetLoader [])
     = Some [ENew (Ref 12) [Handle] 15, EInvoke ''construct'' (Ref 15) []]"
  by code_simp+

text \<open>
  Calls of \<^verbatim>\<open>getInstance\<close> that return. Let the loader be that of a singleton plugin: the \<^verbatim>\<open>isSingleton\<close> member of the
  factory's prototype is a function that returns \<^verbatim>\<open>true\<close>. Consider a call of
  \<^verbatim>\<open>getInstance\<close> that returns. If the live set was empty, the call leaves exactly one live
  instance, which it returns, and has run the factory, the construct hook and the init hook
  once each, in that order. If the live set held an instance, the call returns the first live
  instance, leaves the live set as it was, constructs no object and runs no factory, construct
  hook or init hook. So a live set with at most one instance stays so, and any number of
  calls that follow the first return the same reference.
\<close>

lemma singleton_returning_calls:
  assumes fp: "factoryPrototype w = Inr p"
    and sg: "jsget (heap w) p ''isSingleton'' = Inr (Fn l (JBool True))"
    and run: "getInstance w ps = Some (Inr v, w')"
  shows "(instances w = [] \<longrightarrow>
            (\<exists>n. v = Ref n \<and> instances w' = [n]
               \<and> cycles (log w') = cycles (log w)
                    @ [ENew (factory w) (Handle # ps) n, EInvoke ''construct'' (Ref n) ps,
                       EInvoke ''init'' (Ref n) []]))
       \<and> (\<forall>n ns. instances w = n # ns \<longrightarrow>
            v = Ref n \<and> instances w' = n # ns \<and> cycles (log w') = cycles (log w)
            \<and> length (heap w') = length (heap w))
       \<and> (length (instances w) \<le> 1 \<longrightarrow> length (instances w') \<le> 1)"
proof -
  from getInstance_fulfilled[OF run] obtain w1 where
    d: "dependenciesFulfilled w = (Inr True, w1)" and
    r: "bindO (Some (isSingleton w1)) (\<lambda>single w2.
           if single
           then
             bindO (if instances w2 = [] then initialiseSingleton w2 ps
                    else Some (Inr (), w2)) (\<lambda>_ w3.
             bindO (Some (applyMocks w3 (firstInstance w3))) (\<lambda>_ w4.
             Some (Inr (firstInstance w3), w4)))
           else
             bindO (Some (construct_new w2 (factory w2) (Handle # ps))) (\<lambda>n w3.
             bindO (Some (applyMocks w3 (Ref n))) (\<lambda>_ w4.
             bindO (setUp w4 n ps) (\<lambda>_ w5.
             Some (Inr (Ref n), w5))))) = Some (Inr v, w')" by blast
  from dependenciesFulfilled_world[OF d] obtain e1 e2 where w1: "w1 = emit e2 (emit e1 w)" by blast
  have c1: "cycles (log w1) = cycles (log w)"
  proof (rule cycles_frame[where Q = "invokeEv ''dependencies''"])
    show "frame (invokeEv ''dependencies'') w w1"
      using sound_dependenciesFulfilled[of w] d by (simp add: sound_def)
  qed (rule quiet_events)
  have same1: "heap w1 = heap w" "factory w1 = factory w" "instances w1 = instances w"
    by (simp_all add: w1 emit_def)
  let ?w2 = "emit (ECall l p []) (emit (EInvoke ''isSingleton'' p []) w1)"
  have s1: "isSingleton w1 = (Inr True, ?w2)"
    using isSingleton_Fn[of w1 p l True] fp sg same1 by (simp add: factoryPrototype_def)
  have same2: "heap ?w2 = heap w" "factory ?w2 = factory w" "instances ?w2 = instances w"
    using same1 by (simp_all add: emit_def)
  have c2: "cycles (log ?w2) = cycles (log w)"
    using c1 by (simp add: emit_def cycles_def lifecycle_def)
  from r s1 obtain w3 where
    i: "(if instances ?w2 = [] then initialiseSingleton ?w2 ps else Some (Inr (), ?w2))
          = Some (Inr (), w3)" and
    am: "applyMocks w3 (firstInstance w3) = (Inr (), w')" and
    v: "v = firstInstance w3"
    by (auto simp: bindO_def split: option.splits prod.splits sum.splits if_splits)
  have A: "instances w = [] \<longrightarrow>
            (\<exists>n. v = Ref n \<and> instances w' = [n]
               \<and> cycles (log w') = cycles (log w)
                    @ [ENew (factory w) (Handle # ps) n, EInvoke ''construct'' (Ref n) ps,
                       EInvoke ''init'' (Ref n) []])"
  proof
    assume e: "instances w = []"
    with i same2 have ini: "initialiseSingleton ?w2 ps = Some (Inr (), w3)" by simp
    let ?w2' = "emit (ECall l p []) (emit (EInvoke ''isSingleton'' p []) ?w2)"
    have s2: "isSingleton ?w2 = (Inr True, ?w2')"
      using isSingleton_Fn[of ?w2 p l True] fp sg same2 by (simp add: factoryPrototype_def)
    from ini s2 obtain n wn ws where
      cn: "construct_new ?w2' (factory ?w2') (Handle # ps) = (Inr n, wn)" and
      su: "setUp wn n ps = Some (Inr (), ws)" and
      w3: "w3 = ws\<lparr>initialised := True\<rparr>"
      by (auto simp: initialiseSingleton_def bindO_def
               split: option.splits prod.splits sum.splits if_splits)
    have f2': "factory ?w2' = factory w" "instances ?w2' = []"
      "cycles (log ?w2') = cycles (log w)"
      using same2 e c2 by (simp_all add: emit_def cycles_def lifecycle_def)
    from construct_new_facts[OF cn] f2' have
      n1: "instances wn = []" and
      n2: "cycles (log wn) = cycles (log w) @ [ENew (factory w) (Handle # ps) n]"
      by (simp_all add: cycles_def lifecycle_def)
    from setUp_cycle[OF su n1] n2 have
      k: "instances ws = [n]"
         "cycles (log ws) = cycles (log w) @ [ENew (factory w) (Handle # ps) n,
              EInvoke ''construct'' (Ref n) ps, EInvoke ''init'' (Ref n) []]"
      by simp_all
    from k w3 have fi: "firstInstance w3 = Ref n" "instances w3 = [n]"
      "cycles (log w3) = cycles (log w) @ [ENew (factory w) (Handle # ps) n,
              EInvoke ''construct'' (Ref n) ps, EInvoke ''init'' (Ref n) []]"
      by (simp_all add: firstInstance_def)
    from applyMocks_keeps[OF am] fi v show "\<exists>n. v = Ref n \<and> instances w' = [n]
               \<and> cycles (log w') = cycles (log w)
                    @ [ENew (factory w) (Handle # ps) n, EInvoke ''construct'' (Ref n) ps,
                       EInvoke ''init'' (Ref n) []]"
      by simp
  qed
  have B: "\<forall>n ns. instances w = n # ns \<longrightarrow>
            v = Ref n \<and> instances w' = n # ns \<and> cycles (log w') = cycles (log w)
            \<and> length (heap w') = length (heap w)"
  proof (intro allI impI)
    fix n ns assume e: "instances w = n # ns"
    with i same2 have w3: "w3 = ?w2" by simp
    with e same2 have fi: "firstInstance w3 = Ref n" by (simp add: firstInstance_def)
    from applyMocks_keeps[OF am] w3 same2 c2 e fi v
    show "v = Ref n \<and> instances w' = n # ns \<and> cycles (log w') = cycles (log w)
            \<and> length (heap w') = length (heap w)"
      by simp
  qed
  have C: "length (instances w) \<le> 1 \<longrightarrow> length (instances w') \<le> 1"
  proof (cases "instances w")
    case Nil with A show ?thesis by auto
  next
    case (Cons n ns) with B show ?thesis by auto
  qed
  from A B C show ?thesis by blast
qed

lemma singleton_returning_calls_example:
  "getInstance singleLoader [JNum 7] = Some (Inr (Ref 15), singleLive)
   \<and> instances singleLive = [15]
   \<and> cycles (log singleLive)
       = [ENew (Ref 14) [Handle, JNum 7] 15, EInvoke ''construct'' (Ref 15) [JNum 7],
          EInvoke ''init'' (Ref 15) []]
   \<and> (\<exists>w2. getInstance singleLive [JNum 8] = Some (Inr (Ref 15), w2)
          \<and> instances w2 = [15] \<and> cycles (log w2) = cycles (log singleLive)
          \<and> length (heap w2) = length (heap singleLive))"
proof -
  from singleton_returning_calls[OF single_facts(1,2) single_first]
  have a: "instances singleLive = [15]"
    "cycles (log singleLive)
       = [ENew (Ref 14) [Handle, JNum 7] 15, EInvoke ''construct'' (Ref 15) [JNum 7],
          EInvoke ''init'' (Ref 15) []]"
    by (auto simp: single_facts cycles_def)
  from singleLive_facts(3) obtain w2 where
    g: "getInstance singleLive [JNum 8] = Some (Inr (Ref 15), w2)" by auto
  from singleton_returning_calls[OF singleLive_facts(1,2) g] a
  have "instances w2 = [15] \<and> cycles (log w2) = cycles (log singleLive)
          \<and> length (heap w2) = length (heap singleLive)"
    by simp
  with single_first a g show ?thesis by blast
qed

text \<open>
  The loop body on an unknown name. A requested trait name that the registry does not know makes the loop body of
  \<^verbatim>\<open>loadTraits\<close> log a warning and nothing else: it returns normally and leaves the heap as
  it is. The traits requested before it and after it are applied as if the name had not been
  requested, the later ones from the state that the warning left.
\<close>

lemma applyTraits_skips_unknown:
  assumes "\<not> hasTrait w t"
  shows "applyTrait w inst t = (Inr (), warning w (traitWarning w t))
       \<and> heap (warning w (traitWarning w t)) = heap w
       \<and> log (warning w (traitWarning w t)) = log w @ [EWarn (traitWarning w t)]
       \<and> applyTraits w inst (ts1 @ t # ts2)
           = bindR (applyTraits w inst ts1)
               (\<lambda>_ w1. applyTraits (warning w1 (traitWarning w1 t)) inst ts2)"
proof (intro conjI)
  show "applyTrait w inst t = (Inr (), warning w (traitWarning w t))"
    by (rule applyTrait_missing[OF assms])
  show "heap (warning w (traitWarning w t)) = heap w"
    by (simp add: warning_def emit_def)
  show "log (warning w (traitWarning w t)) = log w @ [EWarn (traitWarning w t)]"
    by (simp add: warning_def emit_def)
  show "applyTraits w inst (ts1 @ t # ts2)
           = bindR (applyTraits w inst ts1)
               (\<lambda>_ w1. applyTraits (warning w1 (traitWarning w1 t)) inst ts2)"
    by (simp only: applyTraits_append[of w inst ts1 "t # ts2"] applyTraits_missing_middle[OF assms])
qed

lemma applyTraits_skips_unknown_example:
  "\<not> hasTrait partialWidgetNew (JStr ''a'')
   \<and> fst (applyTraits partialWidgetNew (Ref 15) [JStr ''a'', JStr ''b'']) = Inr ()
   \<and> jsget (heap (snd (applyTraits partialWidgetNew (Ref 15) [JStr ''a'', JStr ''b''])))
        (Ref 15) ''bar'' = Inr (JStr ''B'')"
proof -
  from applyTraits_skips_unknown[OF partial_facts(1), of "Ref 15" "[]" "[JStr ''b'']"]
  have "applyTraits partialWidgetNew (Ref 15) [JStr ''a'', JStr ''b'']
      = applyTraits (warning partialWidgetNew (traitWarning partialWidgetNew (JStr ''a'')))
          (Ref 15) [JStr ''b'']"
    by (simp add: bindR_def)
  with partial_facts show ?thesis by simp
qed

lemma plain_single_steps:
  "factoryPrototype plainSingleLoader = Inr (Ref 13)"
  "jsget (heap plainSingleLoader) (Ref 13) ''isSingleton''
     = Inr (Fn ''Single.isSingleton'' (JBool True))"
  "jsget (heap plainSingleLoader) (Ref 13) ''prototype'' = Inr Undefined"
  "getInstance plainSingleLoader [] = Some (Inl (TypeError ''constructor''), plainSingleOnce)"
  "instances plainSingleOnce = []"
  "getInstance plainSingleOnce [] = Some (Inl (TypeError ''constructor''), plainSingleTwice)"
  "instances plainSingleTwice = []"
  "cycles (log plainSingleTwice)
     = [ENew (Ref 14) [Handle] 15, EInvoke ''construct'' (Ref 15) [],
        ENew (Ref 14) [Handle] 16, EInvoke ''construct'' (Ref 16) []]"
  by code_simp+

lemma single_again_steps:
  "instances singleLive = [15]"
  "initialiseSingleton singleLive [] = Some (Inr (), singleLiveAgain)"
  "instances singleLiveAgain = [15, 16]"
  by code_simp+

lemma plain_partial_steps:
  "fst (invoke plainPartialWidgetLoader (Ref 11) ''traits'' []) = Inr (JArr [JStr ''a'', JStr ''b''])"
  "\<not> hasTrait plainPartialWidgetLoader (JStr ''a'')"
  "getInstance plainPartialWidgetLoader []
     = Some (Inl (TypeError ''constructor''), plainPartialWidgetTried)"
  "warnings (log plainPartialWidgetTried) = []"
  "instances plainPartialWidgetTried = []"
  by code_simp+

section \<open>The claims\<close>

text \<open>
  Claim C1, evaluated. The singleton plugin extends \<^verbatim>\<open>PluginBase\<close> as it is in the sources,
  so neither its instances nor its prototype have a \<^verbatim>\<open>prototype\<close> member. The first
  \<^verbatim>\<open>getInstance()\<close> runs the factory and the construct hook and then throws inside
  \<^verbatim>\<open>loadTraits\<close>; no instance is returned and none is live. The second call does the same
  with a new object: two factory and construct calls, no init call, no live instance. On the
  loader that holds its live instance, a direct call of \<^verbatim>\<open>initialiseSingleton()\<close> adds a
  second live instance.
\<close>

theorem singleton_repeated_calls_evaluation:
  "factoryPrototype plainSingleLoader = Inr (Ref 13)
   \<and> jsget (heap plainSingleLoader) (Ref 13) ''isSingleton''
       = Inr (Fn ''Single.isSingleton'' (JBool True))
   \<and> jsget (heap plainSingleLoader) (Ref 13) ''prototype'' = Inr Undefined
   \<and> getInstance plainSingleLoader [] = Some (Inl (TypeError ''constructor''), plainSingleOnce)
   \<and> instances plainSingleOnce = []
   \<and> getInstance plainSingleOnce [] = Some (Inl (TypeError ''constructor''), plainSingleTwice)
   \<and> instances plainSingleTwice = []
   \<and> cycles (log plainSingleTwice)
       = [ENew (Ref 14) [Handle] 15, EInvoke ''construct'' (Ref 15) [],
          ENew (Ref 14) [Handle] 16, EInvoke ''construct'' (Ref 16) []]
   \<and> instances singleLive = [15]
   \<and> initialiseSingleton singleLive [] = Some (Inr (), singleLiveAgain)
   \<and> instances singleLiveAgain = [15, 16]"
  using plain_single_steps single_again_steps by simp

text \<open>
  Claim C2. Let \<open>deps\<close> be the lower-cased dependency list that \<^verbatim>\<open>getDependencies\<close>
  returns. If one of its names is not registered, \<^verbatim>\<open>getInstance\<close> fails with the
  missing-dependency error, whose message lists the names that \<^verbatim>\<open>getPluginNames\<close> lacks;
  every dependency that \<^verbatim>\<open>hasPlugin\<close> denies occurs in the message; and the failing call
  creates no instance: the heap and the live set are what they were.
\<close>

theorem getInstance_missing_dependency:
  assumes deps: "getDependencies w = (Inr deps, w1)"
    and unmet: "\<exists>d \<in> set deps. \<not> hasPlugin w d"
  shows "\<exists>w'. getInstance w ps
           = Some (Inl (MissingDependency
                 (missingMessage (lname w) (unmetDependencies w deps))), w')
         \<and> instances w' = instances w \<and> heap w' = heap w
         \<and> (\<forall>d \<in> set deps. \<not> hasPlugin w d \<longrightarrow>
               (\<exists>pre post. missingMessage (lname w) (unmetDependencies w deps) = pre @ d @ post))"
proof -
  from getDependencies_value[OF deps] obtain e1 e2 where
    v: "\<forall>w0::world. heap w0 = heap w \<and> factory w0 = factory w \<longrightarrow>
            getDependencies w0 = (Inr deps, emit e2 (emit e1 w0))" by blast
  let ?w1 = "emit e2 (emit e1 w)"
  let ?w2 = "emit e2 (emit e1 ?w1)"
  from v have g1: "getDependencies w = (Inr deps, ?w1)" by simp
  from v have g2: "getDependencies ?w1 = (Inr deps, ?w2)" by (simp add: emit_def)
  have hp: "hasPlugin ?w1 = hasPlugin w" by (rule hasPlugin_cong) (simp add: emit_def)
  from unmet have nf: "\<not> list_all (hasPlugin w) deps" by (auto simp: list_all_iff)
  have df: "dependenciesFulfilled w = (Inr False, ?w1)"
    using g1 nf hp by (simp add: dependenciesFulfilled_def bindR_def)
  have um: "unmetDependencies ?w2 deps = unmetDependencies w deps"
    by (simp add: unmetDependencies_def getPluginNames_def emit_def)
  have "getInstance w ps
      = Some (Inl (MissingDependency (missingMessage (lname w) (unmetDependencies w deps))), ?w2)"
    using df g2 um by (simp add: getInstance_def bindO_def emit_def)
  moreover have "instances ?w2 = instances w" "heap ?w2 = heap w" by (simp_all add: emit_def)
  moreover have "\<forall>d \<in> set deps. \<not> hasPlugin w d \<longrightarrow>
               (\<exists>pre post. missingMessage (lname w) (unmetDependencies w deps) = pre @ d @ post)"
  proof (intro ballI impI)
    fix d assume d: "d \<in> set deps" "\<not> hasPlugin w d"
    from getDependencies_lower[OF deps d(1)] have "d = toLowerCase d" by simp
    from unmet_covers[OF d this] have "d \<in> set (unmetDependencies w deps)" .
    from join_names[OF this] obtain pre post where
      "join (unmetDependencies w deps) = pre @ d @ post" by blast
    then have "missingMessage (lname w) (unmetDependencies w deps)
        = (''The '' @ dq @ lname w @ dq @ '' plugin requires the following plugins: '' @ pre) @ d @ post"
      by (simp add: missingMessage_def)
    then show "\<exists>pre post. missingMessage (lname w) (unmetDependencies w deps) = pre @ d @ post"
      by blast
  qed
  ultimately show ?thesis by blast
qed

theorem getInstance_missing_dependency_witness:
  "fst (getDependencies lonelyWidgetLoader) = Inr [''modal'']
   \<and> \<not> hasPlugin lonelyWidgetLoader ''modal''
   \<and> (\<exists>w'. getInstance lonelyWidgetLoader [JNum 1]
            = Some (Inl (MissingDependency (missingMessage ''widget'' [''modal''])), w')
          \<and> instances w' = [] \<and> heap w' = heap lonelyWidgetLoader)"
proof -
  have d: "getDependencies lonelyWidgetLoader = (Inr [''modal''], snd (getDependencies lonelyWidgetLoader))"
    using lonely_deps by (metis prod.collapse)
  have u: "\<exists>d \<in> set [''modal'']. \<not> hasPlugin lonelyWidgetLoader d"
    using lonely_unmet by simp
  from getInstance_missing_dependency[OF d u, of "[JNum 1]"] lonely_deps lonely_unmet
  show ?thesis by (auto simp: lonely_facts)
qed

text \<open>
  Claim C3, evaluated. The widget declares \<^verbatim>\<open>traits() = ['a', 'b']\<close>; both traits declare the
  method \<^verbatim>\<open>foo\<close> and the field \<^verbatim>\<open>bar\<close>, and the widget declares neither. After
  \<^verbatim>\<open>getInstance()\<close> the instance has no \<^verbatim>\<open>foo\<close> at all, its \<^verbatim>\<open>bar\<close> is that of the
  trait applied last, and its own field \<^verbatim>\<open>snowboard\<close> has been overwritten by the trait's.
\<close>

theorem trait_precedence_evaluation:
  "getInstance widgetLoader [] = Some (Inr (Ref 15), widgetLive)
   \<and> jsget (heap widgetLoader) (Ref 7) ''foo'' = Inr (Fn ''A.foo'' (JStr ''A''))
   \<and> jsget (heap widgetLive) (Ref 15) ''foo'' = Inr Undefined
   \<and> jsget (heap widgetLive) (Ref 15) ''bar'' = Inr (JStr ''B'')
   \<and> jsget (heap widgetLive) (Ref 15) ''snowboard'' = Inr Undefined"
  by code_simp

text \<open>
  Claim C4, amended. For a plugin that is no singleton (the \<^verbatim>\<open>isSingleton\<close> member of the
  factory's prototype is a function that returns \<^verbatim>\<open>false\<close>), a call of \<^verbatim>\<open>getInstance\<close>
  that returns has gone through these states in this order: after the dependency and singleton
  queries, which only add to the log, the factory is run with the registry handle and the
  arguments; the active mocks are applied to the new instance; the detach hook is attached; the
  construct hook is called with the arguments; the traits are composed; the init hook is called;
  the instance is recorded as live; and it is returned.
\<close>

theorem getInstance_order:
  assumes fp: "factoryPrototype w = Inr p"
    and ns: "jsget (heap w) p ''isSingleton'' = Inr (Fn l (JBool False))"
    and run: "getInstance w ps = Some (Inr v, w')"
  shows "\<exists>evs n w1 w2 w3 a w4 w5 b w6.
           construct_new (w\<lparr>log := log w @ evs\<rparr>) (factory w) (Handle # ps) = (Inr n, w1)
         \<and> applyMocks w1 (Ref n) = (Inr (), w2)
         \<and> jsset w2 (Ref n) ''detach'' (DetachFn n) = (Inr (), w3)
         \<and> invoke w3 (Ref n) ''construct'' ps = (Inr a, w4)
         \<and> loadTraits w4 (Ref n) = Some (Inr (), w5)
         \<and> invoke w5 (Ref n) ''init'' [] = (Inr b, w6)
         \<and> w' = emit (EAdd n) (w6\<lparr>instances := setAdd (instances w6) n\<rparr>)
         \<and> v = Ref n"
proof -
  from getInstance_fulfilled[OF run] obtain wd where
    d: "dependenciesFulfilled w = (Inr True, wd)" and
    r: "bindO (Some (isSingleton wd)) (\<lambda>single w2.
           if single
           then
             bindO (if instances w2 = [] then initialiseSingleton w2 ps
                    else Some (Inr (), w2)) (\<lambda>_ w3.
             bindO (Some (applyMocks w3 (firstInstance w3))) (\<lambda>_ w4.
             Some (Inr (firstInstance w3), w4)))
           else
             bindO (Some (construct_new w2 (factory w2) (Handle # ps))) (\<lambda>n w3.
             bindO (Some (applyMocks w3 (Ref n))) (\<lambda>_ w4.
             bindO (setUp w4 n ps) (\<lambda>_ w5.
             Some (Inr (Ref n), w5))))) = Some (Inr v, w')" by blast
  from dependenciesFulfilled_world[OF d] obtain e1 e2 where wd: "wd = emit e2 (emit e1 w)" by blast
  have same: "heap wd = heap w" "factory wd = factory w" by (simp_all add: wd emit_def)
  let ?w0 = "emit (ECall l p []) (emit (EInvoke ''isSingleton'' p []) wd)"
  have s: "isSingleton wd = (Inr False, ?w0)"
    using isSingleton_Fn[of wd p l False] fp ns same by (simp add: factoryPrototype_def)
  have w0: "?w0 = w\<lparr>log := log w @ [e1, e2, EInvoke ''isSingleton'' p [], ECall l p []]\<rparr>"
    by (simp add: wd emit_def)
  have f0: "factory ?w0 = factory w" by (simp add: wd emit_def)
  from r s have "bindO (Some (construct_new ?w0 (factory ?w0) (Handle # ps))) (\<lambda>n w3.
             bindO (Some (applyMocks w3 (Ref n))) (\<lambda>_ w4.
             bindO (setUp w4 n ps) (\<lambda>_ w5.
             Some (Inr (Ref n), w5)))) = Some (Inr v, w')"
    by (simp add: bindO_def)
  then obtain n w1 w2 u where
    c: "construct_new ?w0 (factory ?w0) (Handle # ps) = (Inr n, w1)" and
    m: "applyMocks w1 (Ref n) = (Inr (), w2)" and
    su: "setUp w2 n ps = Some (Inr u, w')" and
    v: "v = Ref n"
    by (auto dest!: bindO_Inr)
  from setUp_steps[OF su] obtain w3 a w4 w5 b w6 where
    k: "jsset w2 (Ref n) ''detach'' (DetachFn n) = (Inr (), w3)"
       "invoke w3 (Ref n) ''construct'' ps = (Inr a, w4)"
       "loadTraits w4 (Ref n) = Some (Inr (), w5)"
       "invoke w5 (Ref n) ''init'' [] = (Inr b, w6)"
       "w' = emit (EAdd n) (w6\<lparr>instances := setAdd (instances w6) n\<rparr>)" by blast
  from c f0 w0 have
    "construct_new (w\<lparr>log := log w @ [e1, e2, EInvoke ''isSingleton'' p [], ECall l p []]\<rparr>)
       (factory w) (Handle # ps) = (Inr n, w1)" by simp
  with m k v show ?thesis by blast
qed

theorem getInstance_order_witness:
  "factoryPrototype widgetMocked = Inr (Ref 11)
   \<and> jsget (heap widgetMocked) (Ref 11) ''isSingleton''
       = Inr (Fn ''PluginBase.isSingleton'' (JBool False))
   \<and> getInstance widgetMocked [] = Some (Inr (Ref 15), widgetMockedLive)
   \<and> (\<exists>evs n w1 w2 w3 a w4 w5 b w6.
           construct_new (widgetMocked\<lparr>log := log widgetMocked @ evs\<rparr>) (factory widgetMocked) [Handle]
             = (Inr n, w1)
         \<and> applyMocks w1 (Ref n) = (Inr (), w2)
         \<and> jsset w2 (Ref n) ''detach'' (DetachFn n) = (Inr (), w3)
         \<and> invoke w3 (Ref n) ''construct'' [] = (Inr a, w4)
         \<and> loadTraits w4 (Ref n) = Some (Inr (), w5)
         \<and> invoke w5 (Ref n) ''init'' [] = (Inr b, w6)
         \<and> widgetMockedLive = emit (EAdd n) (w6\<lparr>instances := setAdd (instances w6) n\<rparr>)
         \<and> Ref 15 = Ref n)"
  using getInstance_order[OF widgetMocked_facts widget_mock_steps(4)]
        widgetMocked_facts widget_mock_steps(4)
  by simp

text \<open>
  Claim C4 as stated fails on the widget with one active mock: the source writes the mock
  right after the factory has run, before the detach hook is attached and the construct hook is
  called, where the order of the claim writes it last; so the two leave different logs.
\<close>

theorem getInstance_order_counterexample:
  "getInstance widgetMocked [] = Some (Inr (Ref 15), widgetMockedLive)
   \<and> getInstanceClaimed widgetMocked [] = Some (Inr (Ref 15), widgetMockedClaimed)
   \<and> filter (stepEv 15) (log widgetMockedLive)
     = [ENew (Ref 12) [Handle] 15,
        ESet 11 ''m'' (MockWrap (Fn ''f'' (JStr ''mocked'')) (Ref 15)),
        ESet 15 ''detach'' (DetachFn 15), EInvoke ''construct'' (Ref 15) [],
        EInvoke ''init'' (Ref 15) [], EAdd 15]
   \<and> filter (stepEv 15) (log widgetMockedClaimed)
     = [ENew (Ref 12) [Handle] 15, ESet 15 ''detach'' (DetachFn 15),
        EInvoke ''construct'' (Ref 15) [], EInvoke ''init'' (Ref 15) [], EAdd 15,
        ESet 11 ''m'' (MockWrap (Fn ''f'' (JStr ''mocked'')) (Ref 15))]
   \<and> getInstance widgetMocked [] \<noteq> getInstanceClaimed widgetMocked []"
proof -
  have "widgetMockedLive \<noteq> widgetMockedClaimed"
  proof
    assume "widgetMockedLive = widgetMockedClaimed"
    then have "filter (stepEv 15) (log widgetMockedLive) = filter (stepEv 15) (log widgetMockedClaimed)"
      by simp
    then show False by (simp add: claimed_steps(2,3))
  qed
  then show ?thesis using claimed_steps widget_mock_steps(4) by simp
qed

text \<open>
  Claim C5. Let the prototype chain of a plugin instance provide each of the seven reserved
  names \<^verbatim>\<open>constructor\<close>, \<^verbatim>\<open>construct\<close>, \<^verbatim>\<open>init\<close>, \<^verbatim>\<open>getSnowboard\<close>, \<^verbatim>\<open>destruct\<close>,
  \<^verbatim>\<open>destructor\<close>, \<^verbatim>\<open>detach\<close>, as \<^verbatim>\<open>PluginBase\<close> does for every plugin. Then
  \<^verbatim>\<open>loadTraits\<close> leaves the instance's own members of these names exactly as they were,
  whatever the traits define, whether it returns or throws. The names that the loop over the
  trait's property names adds to the descriptors never include a reserved one.
\<close>

theorem reserved_names_not_copied:
  assumes gp: "getPrototypeOf (heap w) (Ref n) = Inr gp"
    and base: "\<forall>k \<in> set reservedNames. \<exists>v. jsget (heap w) gp k = Inr v \<and> v \<noteq> Undefined"
    and run: "loadTraits w (Ref n) = Some (r, w')"
  shows "(\<forall>k \<in> set reservedNames.
            getOwnPropertyDescriptor (heap w') n k = getOwnPropertyDescriptor (heap w) n k)
       \<and> (\<forall>h tgp ns acc ds. methodDescriptors h tgp ns acc = Inr ds \<longrightarrow>
            (\<forall>k \<in> set reservedNames. map_of ds k = map_of acc k))"
proof (intro conjI ballI)
  fix k assume k: "k \<in> set reservedNames"
  from gp have n: "n < length (heap w)"
    by (auto simp: getPrototypeOf_def getObj_def split: if_splits)
  from base k obtain v where v: "jsget (heap w) gp k = Inr v" "v \<noteq> Undefined" by blast
  from run obtain rc wc where c: "collectTraits w (Ref n) [] = Some (rc, wc)"
    by (auto simp: loadTraits_def bindO_def split: option.splits)
  from collectTraits_heap[OF c] have hc: "heap wc = heap w" by simp
  show "getOwnPropertyDescriptor (heap w') n k = getOwnPropertyDescriptor (heap w) n k"
  proof (cases rc)
    case (Inl e)
    with run c hc show ?thesis by (auto simp: loadTraits_def bindO_def)
  next
    case (Inr ts)
    with run c have w': "w' = snd (applyTraits wc (Ref n) ts)"
      by (auto simp: loadTraits_def bindO_def)
    have "agree k (heap wc) (heap (snd (applyTraits wc (Ref n) ts)))"
      by (rule applyTraits_agree[where gp = gp and v = v]) (simp_all add: hc n gp v)
    with w' hc have "agree k (heap w) (heap w')" by simp
    from agree_own[OF this n] show ?thesis .
  qed
next
  show "\<forall>h tgp ns acc ds. methodDescriptors h tgp ns acc = Inr ds \<longrightarrow>
            (\<forall>k \<in> set reservedNames. map_of ds k = map_of acc k)"
    by (auto dest: methodDescriptors_reserved)
qed

theorem reserved_names_not_copied_witness:
  "getPrototypeOf (heap gadgetNew) (Ref 19) = Inr (Ref 17)
   \<and> (\<exists>w'. loadTraits gadgetNew (Ref 19) = Some (Inr (), w')
          \<and> (\<forall>k \<in> set reservedNames. getOwnPropertyDescriptor (heap w') 19 k = None))"
proof -
  have b: "\<forall>k \<in> set reservedNames. \<exists>v. jsget (heap gadgetNew) (Ref 17) k = Inr v \<and> v \<noteq> Undefined"
    using gadget_facts(2) by (simp add: reservedNames_def)
  from gadget_facts(3) obtain w' where l: "loadTraits gadgetNew (Ref 19) = Some (Inr (), w')"
    by auto
  from reserved_names_not_copied[OF gadget_facts(1) b l] gadget_facts(4)
  have "\<forall>k \<in> set reservedNames. getOwnPropertyDescriptor (heap w') 19 k = None"
    by (simp add: reservedNames_def)
  with gadget_facts(1) l show ?thesis by blast
qed

text \<open>
  Claim C6, evaluated. On the widget, whose \<^verbatim>\<open>m\<close> returns \<^verbatim>\<open>'original'\<close>: after
  \<^verbatim>\<open>mock('m', f)\<close> the loader has recorded \<^verbatim>\<open>undefined\<close> as the original, and
  \<^verbatim>\<open>getInstance()\<close> gives an instance whose \<^verbatim>\<open>m\<close> calls \<^verbatim>\<open>f\<close>; after
  \<^verbatim>\<open>unmock('m')\<close> a new \<^verbatim>\<open>getInstance()\<close> gives an instance whose \<^verbatim>\<open>m\<close> still calls
  \<^verbatim>\<open>f\<close>, with the earlier instance as its first argument. On the singleton, \<^verbatim>\<open>m\<close> of the
  instance is not callable after \<^verbatim>\<open>unmock('m')\<close>.
\<close>

theorem mock_round_trip_evaluation:
  "mock widgetLoader ''m'' mockF = Some (Inr (), widgetMocked)
   \<and> jsget (heap widgetLoader) (Ref 11) ''m'' = Inr (Fn ''Widget.m'' (JStr ''original''))
   \<and> originalFunctions widgetMocked = [(''m'', Undefined)]
   \<and> getInstance widgetMocked [] = Some (Inr (Ref 15), widgetMockedLive)
   \<and> fst (invoke widgetMockedLive (Ref 15) ''m'' [JNum 1]) = Inr (JStr ''mocked'')
   \<and> unmock widgetMockedLive ''m'' = (Inr (), widgetUnmocked)
   \<and> mocks widgetUnmocked = []
   \<and> getInstance widgetUnmocked [] = Some (Inr (Ref 18), widgetUnmockedLive)
   \<and> invoke widgetUnmockedLive (Ref 18) ''m'' [JNum 1]
       = (Inr (JStr ''mocked''),
          emit (ECall ''f'' Undefined [Ref 15, JNum 1])
            (emit (EInvoke ''m'' (Ref 18) [JNum 1]) widgetUnmockedLive))
   \<and> mock singleLoader ''m'' mockF = Some (Inr (), singleMocked)
   \<and> getInstance singleMocked [] = Some (Inr (Ref 15), singleMockedLive)
   \<and> fst (invoke singleMockedLive (Ref 15) ''m'' [JNum 1]) = Inr (JStr ''mocked'')
   \<and> unmock singleMockedLive ''m'' = (Inr (), singleUnmocked)
   \<and> getInstance singleUnmocked [] = Some (Inr (Ref 15), singleUnmockedLive)
   \<and> fst (invoke singleUnmockedLive (Ref 15) ''m'' [JNum 1]) = Inl (TypeError ''call'')"
  using widget_mock_steps widget_mock_call widget_unmock_steps widget_unmock_call
        single_mock_steps single_unmock_steps
  by simp

text \<open>
  Claim C7, evaluated. The widget extends \<^verbatim>\<open>PluginBase\<close> as it is in the sources and requests
  the traits \<^verbatim>\<open>a\<close> and \<^verbatim>\<open>b\<close>, of which the registry knows only \<^verbatim>\<open>b\<close>.
  \<^verbatim>\<open>getInstance()\<close> throws inside \<^verbatim>\<open>loadTraits\<close> before the loop over the trait names is
  reached: no warning is logged, no trait is applied, and no instance is live.
\<close>

theorem missing_trait_evaluation:
  "fst (invoke plainPartialWidgetLoader (Ref 11) ''traits'' []) = Inr (JArr [JStr ''a'', JStr ''b''])
   \<and> \<not> hasTrait plainPartialWidgetLoader (JStr ''a'')
   \<and> getInstance plainPartialWidgetLoader []
       = Some (Inl (TypeError ''constructor''), plainPartialWidgetTried)
   \<and> warnings (log plainPartialWidgetTried) = []
   \<and> instances plainPartialWidgetTried = []"
  using plain_partial_steps by simp

text \<open>
  Claim C8. A read through the internal mediator of one of the four names
  \<^verbatim>\<open>attachAbstracts\<close>, \<^verbatim>\<open>loadInbuilt\<close>, \<^verbatim>\<open>initialise\<close>, \<^verbatim>\<open>initialiseSingletons\<close>
  raises an error whose message contains the name. Any other string resolves to the callable
  that obtains an instance when its lower-cased form is a registered plugin, and falls through
  to the registry otherwise; a key that is not a string always falls through.
\<close>

theorem inner_mediator_get:
  "(s \<in> {''attachAbstracts'', ''loadInbuilt'', ''initialise'', ''initialiseSingletons''} \<longrightarrow>
      innerGet w (PString s) = Inl (ForbiddenOperation (forbiddenMessage s))
      \<and> (\<exists>pre post. forbiddenMessage s = pre @ s @ post))
   \<and> (s \<notin> {''attachAbstracts'', ''loadInbuilt'', ''initialise'', ''initialiseSingletons''} \<longrightarrow>
      innerGet w (PString s)
        = (if hasPlugin w (toLowerCase s) then Inr (PluginCallable (toLowerCase s))
           else Inr (RegistryMember (PString s))))
   \<and> innerGet w (PSymbol n) = Inr (RegistryMember (PSymbol n))"
proof -
  have "forbiddenMessage s = (''You cannot use the '' @ dq) @ s @ (dq @ '' Snowboard method within a plugin.'')"
    by (simp add: forbiddenMessage_def)
  then have "\<exists>pre post. forbiddenMessage s = pre @ s @ post" by blast
  then show ?thesis by (auto simp: innerGet_def forbiddenNames_def)
qed

theorem inner_mediator_get_witness:
  "innerGet widgetLoader (PString ''initialise'')
     = Inl (ForbiddenOperation (forbiddenMessage ''initialise''))
   \<and> innerGet widgetLoader (PString ''Widget'') = Inr (PluginCallable ''widget'')
   \<and> innerGet widgetLoader (PString ''hasTrait'') = Inr (RegistryMember (PString ''hasTrait''))"
  using inner_mediator_get[of "''initialise''" widgetLoader 0]
        inner_mediator_get[of "''Widget''" widgetLoader 0]
        inner_mediator_get[of "''hasTrait''" widgetLoader 0]
        widget_registered
  by simp

text \<open>
  Claim C9. A call of \<^verbatim>\<open>destructor()\<close> that returns has invoked \<^verbatim>\<open>destruct\<close>, then
  \<^verbatim>\<open>detach\<close>, and has then written \<^verbatim>\<open>destructed = true\<close>; a second call returns as well
  and leaves \<^verbatim>\<open>destructed\<close> true. No call of \<^verbatim>\<open>destructor()\<close>, returning or throwing,
  takes \<^verbatim>\<open>destructed\<close> from true to anything else.
\<close>

theorem destructor_idempotent:
  assumes "destructor w this = (Inr u, w1)"
  shows "\<exists>r evs1 evs2. this = Ref r
     \<and> log w1 = log w @ EInvoke ''destruct'' this [] # evs1
                    @ EInvoke ''detach'' this [] # evs2
                    @ [ESet r ''destructed'' (JBool True)]
     \<and> list_all callEv evs1 \<and> list_all callEv evs2
     \<and> jsget (heap w1) this ''destructed'' = Inr (JBool True)
     \<and> (\<exists>w2. destructor w1 this = (Inr (), w2)
             \<and> jsget (heap w2) this ''destructed'' = Inr (JBool True))
     \<and> (\<forall>w0. jsget (heap w0) this ''destructed'' = Inr (JBool True) \<longrightarrow>
             jsget (heap (snd (destructor w0 this))) this ''destructed'' = Inr (JBool True))"
proof -
  from assms obtain a wa b wb where
    a: "invoke w this ''destruct'' [] = (Inr a, wa)" and
    b: "invoke wa this ''detach'' [] = (Inr b, wb)" and
    c: "jsset wb this ''destructed'' (JBool True) = (Inr u, w1)"
    unfolding destructor_def by (auto dest!: bindR_Inr)
  from invoke_Inr_Ref[OF a] obtain r where r: "this = Ref r" by blast
  have ha: "heap wa = heap w" using invoke_heap[of w this "''destruct''" "[]"] a by simp
  have hb: "heap wb = heap wa" using invoke_heap[of wa this "''detach''" "[]"] b by simp
  from invoke_log[of w this "''destruct''" "[]"] a obtain evs1 where
    l1: "log wa = log w @ EInvoke ''destruct'' this [] # evs1" "list_all callEv evs1" by auto
  from invoke_log[of wa this "''detach''" "[]"] b obtain evs2 where
    l2: "log wb = log wa @ EInvoke ''detach'' this [] # evs2" "list_all callEv evs2" by auto
  from c r have l3: "log w1 = log wb @ [ESet r ''destructed'' (JBool True)]"
    by (auto simp: jsset_def emit_def setObj_def split: option.splits if_splits)
  from jsset_get_same[OF c r] obtain ob d where
    g: "jsget (heap w1) this ''destructed'' = Inr (JBool True)" and
    own: "getObj (heap w1) r = Some ob" "map_of (props ob) ''destructed'' = Some d" "writable d"
    by blast
  have k1: "jsget (heap w1) this ''destruct'' = jsget (heap w) this ''destruct''"
    using jsset_get_other[of "''destruct''" "''destructed''" wb this "JBool True" this] c ha hb
    by simp
  have k2: "jsget (heap w1) this ''detach'' = jsget (heap w) this ''detach''"
    using jsset_get_other[of "''detach''" "''destructed''" wb this "JBool True" this] c ha hb
    by simp
  obtain a' wa' where a': "invoke w1 this ''destruct'' [] = (a', wa')"
    by (cases "invoke w1 this ''destruct'' []")
  have "\<not> isl a'" using invoke_success_get[OF k1, of "[]"] a a' by simp
  then obtain x where xa: "a' = Inr x" by (cases a') auto
  have ha': "heap wa' = heap w1" using invoke_heap[of w1 this "''destruct''" "[]"] a' by simp
  obtain b' wb' where b': "invoke wa' this ''detach'' [] = (b', wb')"
    by (cases "invoke wa' this ''detach'' []")
  have "jsget (heap wa') this ''detach'' = jsget (heap wa) this ''detach''"
    using k2 ha ha' by simp
  from invoke_success_get[OF this, of "[]"] b b' have "\<not> isl b'" by simp
  then obtain y where yb: "b' = Inr y" by (cases b') auto
  have hb': "heap wb' = heap w1" using invoke_heap[of wa' this "''detach''" "[]"] b' ha' by simp
  from own hb' have "getObj (heap wb') r = Some ob" by simp
  from jsset_own_writable[OF this own(2,3), of "JBool True"] obtain w2 where
    s2: "jsset wb' (Ref r) ''destructed'' (JBool True) = (Inr (), w2)"
        "jsget (heap w2) (Ref r) ''destructed'' = Inr (JBool True)" by blast
  have d2: "destructor w1 this = (Inr (), w2)"
    using a' xa b' yb s2 r by (simp add: destructor_def bindR_def)
  show ?thesis
    using r l1 l2 l3 g d2 s2 destructed_kept by auto
qed

theorem destructor_idempotent_witness:
  "fst (destructor widgetLive (Ref 15)) = Inr ()
   \<and> instances widgetLive = [15]
   \<and> instances (snd (destructor widgetLive (Ref 15))) = []
   \<and> (\<exists>w1 w2. destructor widgetLive (Ref 15) = (Inr (), w1)
         \<and> jsget (heap w1) (Ref 15) ''destructed'' = Inr (JBool True)
         \<and> destructor w1 (Ref 15) = (Inr (), w2)
         \<and> jsget (heap w2) (Ref 15) ''destructed'' = Inr (JBool True))"
proof -
  have d: "destructor widgetLive (Ref 15) = (Inr (), snd (destructor widgetLive (Ref 15)))"
    using widgetLive_destructor by (metis prod.collapse)
  from destructor_idempotent[OF d] widgetLive_destructor widgetLive_instances d
  show ?thesis by auto
qed

text \<open>
  Claim C10. The precondition of \<^verbatim>\<open>mock(methodName, callback)\<close> is a truthiness check on
  the member of the factory's prototype, not a function check. Where the factory has a
  prototype object and \<open>member\<close> is what it holds under the name, \<^verbatim>\<open>mock\<close> fails with
  the unknown-method error exactly when \<open>member\<close> is falsy; it fails so before it changes
  anything. \<^verbatim>\<open>hasMethod\<close> answers whether \<open>member\<close> is a function. So a member that holds
  a falsy value cannot be mocked, and a truthy member that is no function can, although
  \<^verbatim>\<open>hasMethod\<close> denies both.
\<close>

theorem mock_requires_truthy_member:
  assumes "factoryPrototype w = Inr p" and "jsget (heap w) p methodName = Inr member"
  shows "((\<exists>msg w'. mock w methodName callback = Some (Inl (UnknownMethod msg), w'))
            \<longleftrightarrow> \<not> truthy member)
       \<and> (\<not> truthy member \<longrightarrow>
            mock w methodName callback
              = Some (Inl (UnknownMethod (unknownMethodMessage methodName)), w))
       \<and> hasMethod w methodName = Inr (isFunction (heap w) member)"
proof (intro conjI)
  show "(\<exists>msg w'. mock w methodName callback = Some (Inl (UnknownMethod msg), w'))
            \<longleftrightarrow> \<not> truthy member"
  proof
    assume "\<exists>msg w'. mock w methodName callback = Some (Inl (UnknownMethod msg), w')"
    then obtain msg w' where m: "mock w methodName callback = Some (Inl (UnknownMethod msg), w')"
      by blast
    show "\<not> truthy member"
    proof
      assume "truthy member"
      from mock_lowError[OF assms this m] show False by (simp add: lowError_def)
    qed
  next
    assume "\<not> truthy member"
    with assms show "\<exists>msg w'. mock w methodName callback = Some (Inl (UnknownMethod msg), w')"
      by (simp add: mock_def)
  qed
  show "\<not> truthy member \<longrightarrow>
            mock w methodName callback
              = Some (Inl (UnknownMethod (unknownMethodMessage methodName)), w)"
    using assms by (simp add: mock_def)
  show "hasMethod w methodName = Inr (isFunction (heap w) member)"
    using assms by (simp add: hasMethod_def)
qed

theorem mock_requires_truthy_member_witness:
  "factoryPrototype widgetLoader = Inr (Ref 11)
   \<and> jsget (heap widgetLoader) (Ref 11) ''count'' = Inr (JNum 0)
   \<and> mock widgetLoader ''count'' (Fn ''f'' Undefined)
       = Some (Inl (UnknownMethod (unknownMethodMessage ''count'')), widgetLoader)
   \<and> hasMethod widgetLoader ''count'' = Inr False
   \<and> jsget (heap widgetLoader) (Ref 11) ''version'' = Inr (JStr ''1.0'')
   \<and> \<not> (\<exists>msg w'. mock widgetLoader ''version'' (Fn ''f'' Undefined)
                    = Some (Inl (UnknownMethod msg), w'))
   \<and> hasMethod widgetLoader ''version'' = Inr False"
  using mock_requires_truthy_member[OF widget_prototype widget_count, of "Fn ''f'' Undefined"]
        mock_requires_truthy_member[OF widget_prototype widget_version, of "Fn ''f'' Undefined"]
        widget_prototype widget_count widget_version
  by (simp add: truthy_def isFunction_def)

end
